theory Spec2Isabelle
  imports Main
begin

section \<open>Python values and failures\<close>

text \<open>
  The client adapters of \<^verbatim>\<open>kiali_qe/rest\<close> work on decoded JSON documents and
  on plain entity objects. Every implicit raise of the Python source (a missing key, a
  subscript on a value that has none, a missing enum member, an unexpected keyword
  argument, an exception of the cluster client) is a value of \<open>py_error\<close>; a function
  that can raise returns \<open>py_error + 'a\<close>, with \<open>Inl\<close> for the exception.
\<close>

datatype py_error =
    TypeError
  | KeyError
  | IndexError
  | AttributeError
  | UnboundLocalError
  | NotFoundError
  | ResourceNotFoundError
  | ApiException

definition rbind :: "py_error + 'a \<Rightarrow> ('a \<Rightarrow> py_error + 'b) \<Rightarrow> py_error + 'b" where
  "rbind m f = (case m of Inl e \<Rightarrow> Inl e | Inr v \<Rightarrow> f v)"

section \<open>Entities: Overview\<close>

text \<open>
  \<^verbatim>\<open>kiali_qe/entities/overview.py\<close>: the constructor takes and stores
  \<^verbatim>\<open>overview_type, namespace, items, healthy, unhealthy, degraded\<close>; there is no
  \<^verbatim>\<open>na\<close> attribute.
\<close>

record Overview =
  overview_type :: string
  namespace :: string
  items :: int
  unhealthy :: int
  healthy :: int
  degraded :: int

text \<open>The second argument of \<^verbatim>\<open>is_equal\<close> is any Python object.\<close>

datatype pyobject = OverviewObj Overview | OtherObj

fun is_equal :: "Overview \<Rightarrow> pyobject \<Rightarrow> bool \<Rightarrow> bool" where
  "is_equal self OtherObj advanced_check = False"
| "is_equal self (OverviewObj other) advanced_check =
     (if overview_type self \<noteq> overview_type other then False
      else if namespace self \<noteq> namespace other then False
      else if items self \<noteq> items other then False
      else if advanced_check then
        (if healthy self \<noteq> healthy other then False
         else if unhealthy self \<noteq> unhealthy other then False
         else if degraded self \<noteq> degraded other then False
         else True)
      else True)"

section \<open>Decoded JSON documents\<close>

text \<open>
  What \<^verbatim>\<open>request(...).json()\<close> hands to the adapters. Numbers are integers here;
  no function below computes with a fractional number. An object is the list of its
  key/value pairs, looked up by key.
\<close>

datatype json =
    JNull
  | JBool bool
  | JInt int
  | JStr string
  | JArr "json list"
  | JObj "(string \<times> json) list"

text \<open>Truth value of a document in \<^verbatim>\<open>if _data:\<close>.\<close>

fun truthy :: "json \<Rightarrow> bool" where
  "truthy JNull = False"
| "truthy (JBool b) = b"
| "truthy (JInt n) = (n \<noteq> 0)"
| "truthy (JStr s) = (s \<noteq> [])"
| "truthy (JArr xs) = (xs \<noteq> [])"
| "truthy (JObj kvs) = (kvs \<noteq> [])"

text \<open>\<^verbatim>\<open>d[k]\<close> with a string key: only a dict has one; a missing key raises.\<close>

fun getitem :: "json \<Rightarrow> string \<Rightarrow> py_error + json" where
  "getitem (JObj kvs) k = (case map_of kvs k of None \<Rightarrow> Inl KeyError | Some v \<Rightarrow> Inr v)"
| "getitem _ k = Inl TypeError"

fun py_len :: "json \<Rightarrow> py_error + nat" where
  "py_len (JStr s) = Inr (length s)"
| "py_len (JArr xs) = Inr (length xs)"
| "py_len (JObj kvs) = Inr (length kvs)"
| "py_len _ = Inl TypeError"

text \<open>The elements a \<^verbatim>\<open>for\<close> loop visits: a dict yields its keys, a string its characters.\<close>

fun py_iter :: "json \<Rightarrow> py_error + json list" where
  "py_iter (JStr s) = Inr (map (\<lambda>c. JStr [c]) s)"
| "py_iter (JArr xs) = Inr xs"
| "py_iter (JObj kvs) = Inr (map (\<lambda>kv. JStr (fst kv)) kvs)"
| "py_iter _ = Inl TypeError"

fun hashable :: "json \<Rightarrow> bool" where
  "hashable (JArr xs) = False"
| "hashable (JObj kvs) = False"
| "hashable _ = True"

text \<open>Substring test of \<^verbatim>\<open>a in b\<close> on two strings.\<close>

fun startswith :: "string \<Rightarrow> string \<Rightarrow> bool" where
  "startswith t [] = (t = [])"
| "startswith t (c # s) = (case t of [] \<Rightarrow> True | d # t' \<Rightarrow> d = c \<and> startswith t' s)"

fun str_contains :: "string \<Rightarrow> string \<Rightarrow> bool" where
  "str_contains [] t = (t = [])"
| "str_contains (c # s) t = (startswith t (c # s) \<or> str_contains s t)"

text \<open>
  \<^verbatim>\<open>t in v\<close> for a string \<open>t\<close>: substring of a string, element of a list, key of a
  dict; the other values are not iterable.
\<close>

fun py_in :: "string \<Rightarrow> json \<Rightarrow> py_error + bool" where
  "py_in t (JStr s) = Inr (str_contains s t)"
| "py_in t (JArr xs) = Inr (JStr t \<in> set xs)"
| "py_in t (JObj kvs) = Inr (t \<in> set (map fst kvs))"
| "py_in t _ = Inl TypeError"

text \<open>Decimal text of a length, as \<^verbatim>\<open>'{}'.format(len(xs))\<close> prints it.\<close>

function str_nat :: "nat \<Rightarrow> string" where
  "str_nat n = (if n < 10 then [''0123456789'' ! n]
                else str_nat (n div 10) @ [''0123456789'' ! (n mod 10)])"
  by pat_completeness auto
termination
  by (relation "measure id") auto

declare str_nat.simps [simp del]

section \<open>Enumerations\<close>

text \<open>
  \<^verbatim>\<open>kiali_qe/components/enums.py\<close>. The members compared by identity are datatypes;
  the two classes whose members are read by attribute name for their \<^verbatim>\<open>text\<close> are
  tables from member name to text, so that a name the class does not define is an
  \<^verbatim>\<open>AttributeError\<close>.
\<close>

datatype HealthType = HEALTH_NA | HEALTHY | FAILURE | DEGRADED

datatype IstioConfigValidation = VALIDATION_NA | VALID | WARNING | NOT_VALID

datatype OverviewPageType = APPS | SERVICES | WORKLOADS

fun OverviewPageType_text :: "OverviewPageType \<Rightarrow> string" where
  "OverviewPageType_text APPS = ''Apps''"
| "OverviewPageType_text SERVICES = ''Services''"
| "OverviewPageType_text WORKLOADS = ''Workloads''"

definition IstioConfigPageFilter :: "(string \<times> string) list" where
  "IstioConfigPageFilter =
     [(''ISTIO_TYPE'', ''Istio Type''),
      (''ISTIO_NAME'', ''Istio Name''),
      (''CONFIG'', ''Config'')]"

definition IstioConfigObjectType :: "(string \<times> string) list" where
  "IstioConfigObjectType =
     [(''DESTINATION_RULE'', ''DestinationRule''),
      (''RULE'', ''Rule''),
      (''ADAPTER'', ''Adapter''),
      (''TEMPLATE'', ''Template''),
      (''VIRTUAL_SERVICE'', ''VirtualService''),
      (''GATEWAY'', ''Gateway''),
      (''SERVICE_ENTRY'', ''ServiceEntry''),
      (''QUOTA_SPEC'', ''QuotaSpec''),
      (''QUOTA_SPEC_BINDING'', ''QuotaSpecBinding''),
      (''POLICY'', ''Policy''),
      (''MESH_POLICY'', ''MeshPolicy''),
      (''CLUSTER_RBAC_CONFIG'', ''ClusterRbacConfig''),
      (''RBAC_CONFIG'', ''RbacConfig''),
      (''SERVICE_ROLE'', ''ServiceRole''),
      (''SERVICE_ROLE_BINDING'', ''ServiceRoleBinding'')]"

text \<open>\<^verbatim>\<open>Cls.MEMBER.text\<close>.\<close>

definition member_text :: "(string \<times> string) list \<Rightarrow> string \<Rightarrow> py_error + string" where
  "member_text cls member =
     (case map_of cls member of None \<Rightarrow> Inl AttributeError | Some t \<Rightarrow> Inr t)"

section \<open>The REST backend\<close>

text \<open>
  The transport is a collaborator: \<open>request_json\<close> is
  \<^verbatim>\<open>request(method_name, path=kwargs).json()\<close> and \<open>request_validate_json\<close> the same
  call with \<^verbatim>\<open>params={'validate': 'true'}\<close>. Either may raise.
\<close>

record backend =
  request_json :: "string \<Rightarrow> (string \<times> json) list \<Rightarrow> py_error + json"
  request_validate_json :: "string \<Rightarrow> (string \<times> json) list \<Rightarrow> py_error + json"

definition get_response :: "backend \<Rightarrow> string \<Rightarrow> (string \<times> json) list \<Rightarrow> py_error + json" where
  "get_response b method_name kwargs = request_json b method_name kwargs"

definition get_validation :: "backend \<Rightarrow> string \<Rightarrow> (string \<times> json) list \<Rightarrow> py_error + json" where
  "get_validation b method_name kwargs =
     rbind (request_validate_json b method_name kwargs) (\<lambda>j. getitem j ''validation'')"

section \<open>Validation verdict\<close>

text \<open>
  The set comprehension of \<^verbatim>\<open>get_istio_config_validation\<close>: each check is subscripted
  with \<^verbatim>\<open>'severity'\<close> and the value is hashed into the set, in order.
\<close>

fun severities :: "json list \<Rightarrow> py_error + json list" where
  "severities [] = Inr []"
| "severities (check # checks) =
     rbind (getitem check ''severity'') (\<lambda>s.
       if hashable s then rbind (severities checks) (\<lambda>ss. Inr (s # ss))
       else Inl TypeError)"

text \<open>The body of \<^verbatim>\<open>get_istio_config_validation\<close> once \<^verbatim>\<open>_health_data\<close> is fetched.\<close>

definition validation_verdict :: "json \<Rightarrow> py_error + IstioConfigValidation" where
  "validation_verdict health_data =
     (if truthy health_data then
        rbind (getitem health_data ''checks'') (\<lambda>checks.
        rbind (py_len checks) (\<lambda>n.
          if n > 0 then
            rbind (py_iter checks) (\<lambda>cs.
            rbind (severities cs) (\<lambda>ss.
              if JStr ''error'' \<in> set ss then Inr NOT_VALID else Inr WARNING))
          else Inr VALID))
      else Inr VALIDATION_NA)"

definition get_istio_config_validation ::
  "backend \<Rightarrow> json \<Rightarrow> json \<Rightarrow> json \<Rightarrow> py_error + IstioConfigValidation" where
  "get_istio_config_validation b namespace' object_type object_name =
     rbind (get_validation b ''istioConfigDetails''
              [(''namespace'', namespace'), (''object_type'', object_type),
               (''object'', object_name)])
       validation_verdict"

section \<open>Pod grouping\<close>

text \<open>
  Modelled from the spec: the class \<^verbatim>\<open>WorkloadPod\<close> (\<^verbatim>\<open>kiali_qe/entities/workload.py\<close>)
  is not among the sources; its data-model row lists the attributes name, created_at,
  created_by, labels, istio_init_containers, istio_containers, status and phase, which
  are the keyword arguments \<^verbatim>\<open>workload_details\<close> constructs it with and the attributes it
  reads back. \<open>labels\<close> and \<open>phase\<close> are stored as the backend sent them.
\<close>

record WorkloadPod =
  name :: string
  created_at :: string
  created_by :: string
  labels :: json
  istio_init_containers :: string
  istio_containers :: string
  status :: IstioConfigValidation
  phase :: json

text \<open>
  \<^verbatim>\<open>itertools.groupby(xs, key)\<close>: a new group starts whenever the key differs from the
  key of the group being read; each group is paired with that key.
\<close>

function groupby :: "('a \<Rightarrow> 'k) \<Rightarrow> 'a list \<Rightarrow> ('k \<times> 'a list) list" where
  "groupby key [] = []"
| "groupby key (x # xs) =
     (key x, x # takeWhile (\<lambda>y. key y = key x) xs)
       # groupby key (dropWhile (\<lambda>y. key y = key x) xs)"
  by pat_completeness auto
termination
  by (relation "measure (\<lambda>(key, xs). length xs)")
     (auto simp: length_dropWhile_le less_Suc_eq_le)

definition get_created_by :: "WorkloadPod \<Rightarrow> string" where
  "get_created_by nodeid = created_by nodeid"

text \<open>
  The loop over the groups (lines 574-600 of \<^verbatim>\<open>kiali_api.py\<close>). Its state is the
  local variable \<^verbatim>\<open>_pod\<close>, which the loop reads in the branch for more than one pod
  and assigns in both branches; the rows appended to \<^verbatim>\<open>_pods\<close> are returned.
  \<^verbatim>\<open>s[:-5]\<close> keeps all but the last five characters, nothing of a shorter string.
\<close>

fun group_rows ::
  "WorkloadPod option \<Rightarrow> (string \<times> WorkloadPod list) list \<Rightarrow> py_error + WorkloadPod list" where
  "group_rows pod [] = Inr []"
| "group_rows pod ((created_by', workload_pods) # groups) =
     (if length workload_pods > 1 then
        (case pod of
           None \<Rightarrow> Inl UnboundLocalError
         | Some p \<Rightarrow>
             let row = \<lparr>name = take (length (name p) - 5) (name p) @ ''... (''
                                @ str_nat (length workload_pods) @ '' replicas)'',
                        created_at = created_at p @ '' and ''
                                @ created_at (workload_pods ! (length workload_pods - 1)),
                        created_by = created_by',
                        labels = labels (workload_pods ! 0),
                        istio_init_containers = istio_init_containers (workload_pods ! 0),
                        istio_containers = istio_containers (workload_pods ! 0),
                        status = status (workload_pods ! 0),
                        phase = phase (workload_pods ! 0)\<rparr>
             in rbind (group_rows (Some row) groups) (\<lambda>rows. Inr (row # rows)))
      else if length workload_pods = 1 then
        (let row = \<lparr>name = name (workload_pods ! 0) @ '' (1 replica)'',
                    created_at = created_at (workload_pods ! 0),
                    created_by = created_by',
                    labels = labels (workload_pods ! 0),
                    istio_init_containers = istio_init_containers (workload_pods ! 0),
                    istio_containers = istio_containers (workload_pods ! 0),
                    status = status (workload_pods ! 0),
                    phase = phase (workload_pods ! 0)\<rparr>
         in rbind (group_rows (Some row) groups) (\<lambda>rows. Inr (row # rows)))
      else group_rows pod groups)"

text \<open>
  \<^verbatim>\<open>_pod\<close> enters the loop as the last pod built from the document, and unbound when
  the document has no pods.
\<close>

definition group_pods :: "WorkloadPod list \<Rightarrow> py_error + WorkloadPod list" where
  "group_pods all_pods =
     group_rows (if all_pods = [] then None else Some (last all_pods))
       (groupby get_created_by all_pods)"

text \<open>A pod with the given name, creation time and owner, for the worked examples.\<close>

definition example_pod :: "string \<Rightarrow> string \<Rightarrow> string \<Rightarrow> WorkloadPod" where
  "example_pod n t c =
     \<lparr>name = n, created_at = t, created_by = c, labels = JObj [(''app'', JStr ''reviews'')],
      istio_init_containers = ''istio/proxy_init'', istio_containers = ''istio/proxyv2'',
      status = VALID, phase = JStr ''Running''\<rparr>"

text \<open>A backend that answers every request with the same two documents.\<close>

definition fixed_backend :: "json \<Rightarrow> json \<Rightarrow> backend" where
  "fixed_backend doc validated_doc =
     \<lparr>request_json = (\<lambda>method_name kwargs. Inr doc),
      request_validate_json = (\<lambda>method_name kwargs. Inr validated_doc)\<rparr>"

section \<open>Overview health buckets\<close>

text \<open>
  Modelled from the spec: the entity classes \<^verbatim>\<open>Service\<close>, \<^verbatim>\<open>Workload\<close> and
  \<^verbatim>\<open>Application\<close> are not among the sources; the data model gives each a namespace, a
  name, an istio_sidecar flag and a health. \<open>health\<close> is \<open>Some\<close> member of
  \<^verbatim>\<open>HealthType\<close>, or \<open>None\<close> for Python's \<^verbatim>\<open>None\<close>, which the health getters of
  \<^verbatim>\<open>kiali_api.py\<close> return when the backend has no health document.
\<close>

record entity =
  entity_namespace :: json
  entity_name :: json
  istio_sidecar :: json
  health :: "HealthType option"

record buckets =
  n_healthy :: int
  n_unhealthy :: int
  n_degraded :: int
  n_na :: int

text \<open>The body of the loop over \<^verbatim>\<open>_items\<close>: four independent \<^verbatim>\<open>if\<close> statements.\<close>

definition bucket_step :: "buckets \<Rightarrow> HealthType option \<Rightarrow> buckets" where
  "bucket_step c h =
     (let c1 = (if h = Some HEALTHY then c\<lparr>n_healthy := n_healthy c + 1\<rparr> else c);
          c2 = (if h = Some DEGRADED then c1\<lparr>n_degraded := n_degraded c1 + 1\<rparr> else c1);
          c3 = (if h = Some FAILURE then c2\<lparr>n_unhealthy := n_unhealthy c2 + 1\<rparr> else c2);
          c4 = (if h = Some HEALTH_NA then c3\<lparr>n_na := n_na c3 + 1\<rparr> else c3)
      in c4)"

definition health_buckets :: "entity list \<Rightarrow> buckets" where
  "health_buckets its =
     foldl bucket_step \<lparr>n_healthy = 0, n_unhealthy = 0, n_degraded = 0, n_na = 0\<rparr>
       (map health its)"

text \<open>
  A call with keyword arguments binds only when the callee has a parameter for every
  keyword; otherwise Python raises \<^verbatim>\<open>TypeError\<close> before the body runs.
\<close>

definition Overview_init_params :: "string list" where
  "Overview_init_params =
     [''overview_type'', ''namespace'', ''items'', ''healthy'', ''unhealthy'', ''degraded'']"

definition accepts_keywords :: "string list \<Rightarrow> string list \<Rightarrow> bool" where
  "accepts_keywords params keywords = list_all (\<lambda>k. k \<in> set params) keywords"

text \<open>
  Lines 105-126 of \<^verbatim>\<open>overview_list\<close> for one namespace: the counts, then the call
  \<^verbatim>\<open>Overview(overview_type=..., namespace=..., items=..., healthy=..., unhealthy=...,
  degraded=..., na=_na)\<close>.
\<close>

definition overview_of :: "OverviewPageType \<Rightarrow> string \<Rightarrow> entity list \<Rightarrow> py_error + Overview" where
  "overview_of overview_type' namespace' its =
     (let c = health_buckets its in
      if accepts_keywords Overview_init_params
           [''overview_type'', ''namespace'', ''items'', ''healthy'', ''unhealthy'',
            ''degraded'', ''na'']
      then Inr \<lparr>overview_type = OverviewPageType_text overview_type',
                namespace = namespace',
                items = int (length its),
                unhealthy = n_unhealthy c,
                healthy = n_healthy c,
                degraded = n_degraded c\<rparr>
      else Inl TypeError)"

text \<open>
  The listings \<^verbatim>\<open>overview_list\<close> calls on itself, each for a list of namespaces and no
  name filter.
\<close>

record listings =
  namespace_names :: "py_error + string list"
  service_list :: "string list \<Rightarrow> py_error + entity list"
  workload_list :: "string list \<Rightarrow> py_error + entity list"
  application_list :: "string list \<Rightarrow> py_error + entity list"

fun overviews :: "listings \<Rightarrow> OverviewPageType \<Rightarrow> string list \<Rightarrow> py_error + Overview list" where
  "overviews l overview_type' [] = Inr []"
| "overviews l overview_type' (namespace' # namespace_list) =
     rbind (if overview_type' = SERVICES then service_list l [namespace']
            else if overview_type' = WORKLOADS then workload_list l [namespace']
            else application_list l [namespace']) (\<lambda>its.
     rbind (overview_of overview_type' namespace' its) (\<lambda>overview.
     rbind (overviews l overview_type' namespace_list) (\<lambda>rest.
       Inr (overview # rest))))"

definition overview_list ::
  "listings \<Rightarrow> string list \<Rightarrow> OverviewPageType \<Rightarrow> py_error + Overview list" where
  "overview_list l namespaces overview_type' =
     rbind (if length namespaces > 0 then Inr namespaces else namespace_names l)
       (overviews l overview_type')"

section \<open>Deleting an Istio object through the cluster client\<close>

text \<open>
  \<^verbatim>\<open>kiali_qe/rest/openshift_api.py\<close>. The dynamic client is a collaborator working on a
  cluster state \<open>'c\<close>: \<open>resources_get\<close> is \<^verbatim>\<open>_dyn_client.resources.get(kind, api_version)\<close>
  and \<open>resource_delete\<close> the \<^verbatim>\<open>delete(name, namespace)\<close> of the resource it returns.
\<close>

record ('r, 'c) dyn_client =
  resources_get :: "string \<Rightarrow> string \<Rightarrow> 'c \<Rightarrow> py_error + 'r"
  resource_delete :: "'r \<Rightarrow> string \<Rightarrow> string \<Rightarrow> 'c \<Rightarrow> (py_error + unit) \<times> 'c"

text \<open>\<^verbatim>\<open>try: ... except NotFoundError: pass\<close> around both calls.\<close>

definition delete_istio_config ::
  "('r, 'c) dyn_client \<Rightarrow> string \<Rightarrow> string \<Rightarrow> string \<Rightarrow> string \<Rightarrow> 'c \<Rightarrow> (py_error + unit) \<times> 'c" where
  "delete_istio_config cl name' namespace' kind api_version c =
     (case resources_get cl kind api_version c of
        Inl e \<Rightarrow> (if e = NotFoundError then (Inr (), c) else (Inl e, c))
      | Inr r \<Rightarrow>
          (case resource_delete cl r name' namespace' c of
             (Inl e, c') \<Rightarrow> if e = NotFoundError then (Inr (), c') else (Inl e, c')
           | (Inr u, c') \<Rightarrow> (Inr (), c')))"

text \<open>
  A cluster for the worked example: the state is the set of (kind, namespace, name) of
  the objects that exist; deleting an object that does not exist raises
  \<^verbatim>\<open>NotFoundError\<close>.
\<close>

definition set_cluster :: "(string, (string \<times> string \<times> string) set) dyn_client" where
  "set_cluster =
     \<lparr>resources_get = (\<lambda>kind api_version c. Inr kind),
      resource_delete = (\<lambda>kind name' namespace' c.
         if (kind, namespace', name') \<in> c then (Inr (), c - {(kind, namespace', name')})
         else (Inl NotFoundError, c))\<rparr>"

section \<open>Istio config list\<close>

text \<open>
  Modelled from the spec: the entity classes \<^verbatim>\<open>IstioConfig\<close> and \<^verbatim>\<open>Rule\<close>
  (\<^verbatim>\<open>kiali_qe/entities/istio_config.py\<close>) are not among the sources. An entity holds the
  keyword arguments it is constructed with: name, namespace, object_type and, for an
  \<^verbatim>\<open>IstioConfig\<close>, the validation verdict. Two entities are the same element of a
  Python \<^verbatim>\<open>set\<close> when these agree.
\<close>

datatype config_entity =
    IstioConfig (config_name: json) (config_namespace: json) (object_type: string)
      (validation: IstioConfigValidation)
  | Rule (config_name: json) (config_namespace: json) (object_type: string)

text \<open>What a query returns: a list, or a \<^verbatim>\<open>set\<close> once a filter was applied.\<close>

datatype 'a collection = PyList "'a list" | PySet "'a set"

text \<open>A filter is the dict \<^verbatim>\<open>{'name': ..., 'value': ...}\<close> of two texts the callers pass.\<close>

record page_filter =
  filter_name :: string
  filter_value :: string

text \<open>
  A \<^verbatim>\<open>{}\<close> field of \<^verbatim>\<open>str.format\<close>: a string is inserted as it is; for any other
  value Python's built-in \<^verbatim>\<open>str\<close> decides, which is taken as the parameter \<open>str_of\<close>.
\<close>

definition format_arg :: "(json \<Rightarrow> string) \<Rightarrow> json \<Rightarrow> string" where
  "format_arg str_of v = (case v of JStr s \<Rightarrow> s | _ \<Rightarrow> str_of v)"

text \<open>
  The loop over \<^verbatim>\<open>filters\<close> (lines 212-218). Each test reads a member of
  \<^verbatim>\<open>IstioConfigPageFilter\<close> (imported as \<^verbatim>\<open>FILTER_TYPE\<close>) before it looks at the filter.
\<close>

fun parse_filters ::
  "page_filter list \<Rightarrow> string list \<times> string list \<times> string list
     \<Rightarrow> py_error + (string list \<times> string list \<times> string list)" where
  "parse_filters [] acc = Inr acc"
| "parse_filters (f # fs) (namespaces, istio_names, istio_types) =
     rbind (member_text IstioConfigPageFilter ''NAMESPACE'') (\<lambda>t.
       if str_contains (filter_name f) t
       then parse_filters fs (namespaces @ [filter_value f], istio_names, istio_types)
       else
         rbind (member_text IstioConfigPageFilter ''ISTIO_NAME'') (\<lambda>t.
           if str_contains (filter_name f) t
           then parse_filters fs (namespaces, istio_names @ [filter_value f], istio_types)
           else
             rbind (member_text IstioConfigPageFilter ''ISTIO_TYPE'') (\<lambda>t.
               if str_contains (filter_name f) t
               then parse_filters fs (namespaces, istio_names, istio_types @ [filter_value f])
               else parse_filters fs (namespaces, istio_names, istio_types))))"

text \<open>\<^verbatim>\<open>namespace_list\<close>: the names of the \<^verbatim>\<open>namespaceList\<close> response.\<close>

fun entity_names :: "json list \<Rightarrow> py_error + json list" where
  "entity_names [] = Inr []"
| "entity_names (e # es) =
     rbind (getitem e ''name'') (\<lambda>n. rbind (entity_names es) (\<lambda>ns. Inr (n # ns)))"

definition namespace_list :: "backend \<Rightarrow> py_error + json list" where
  "namespace_list b =
     rbind (get_response b ''namespaceList'' []) (\<lambda>entities_j.
       if truthy entities_j then rbind (py_iter entities_j) entity_names else Inr [])"

text \<open>
  The policies a block of \<^verbatim>\<open>istio_config_list\<close> loops over: those of
  \<^verbatim>\<open>_data[key]\<close> when \<^verbatim>\<open>len(_data[key]) > 0\<close>, and for destination rules and virtual
  services those of \<^verbatim>\<open>_data[key]['items']\<close> when both lengths are positive.
\<close>

definition section_entries :: "json \<Rightarrow> string \<Rightarrow> py_error + json list" where
  "section_entries data key =
     rbind (getitem data key) (\<lambda>v.
     rbind (py_len v) (\<lambda>n. if n > 0 then py_iter v else Inr []))"

definition section_items :: "json \<Rightarrow> string \<Rightarrow> py_error + json list" where
  "section_items data key =
     rbind (getitem data key) (\<lambda>v.
     rbind (py_len v) (\<lambda>n.
       if n > 0 then
         rbind (getitem v ''items'') (\<lambda>its.
         rbind (py_len its) (\<lambda>m. if m > 0 then py_iter its else Inr []))
       else Inr []))"

text \<open>
  One \<^verbatim>\<open>IstioConfig\<close> per policy, with the verdict fetched for it; \<open>member\<close> is the
  member of \<^verbatim>\<open>IstioConfigObjectType\<close> (imported as \<^verbatim>\<open>OBJECT_TYPE\<close>) and \<open>api_type\<close>
  the object type of the validation request.
\<close>

fun istio_configs ::
  "backend \<Rightarrow> json \<Rightarrow> string \<Rightarrow> string \<Rightarrow> json list \<Rightarrow> py_error + config_entity list" where
  "istio_configs b namespace' member api_type [] = Inr []"
| "istio_configs b namespace' member api_type (policy # policies) =
     rbind (getitem policy ''metadata'') (\<lambda>metadata.
     rbind (getitem metadata ''name'') (\<lambda>n.
     rbind (member_text IstioConfigObjectType member) (\<lambda>t.
     rbind (get_istio_config_validation b namespace' (JStr api_type) n) (\<lambda>v.
     rbind (istio_configs b namespace' member api_type policies) (\<lambda>rest.
       Inr (IstioConfig n namespace' t v # rest))))))"

text \<open>One \<^verbatim>\<open>Rule\<close> per policy; \<open>type_of\<close> computes its \<^verbatim>\<open>object_type\<close>.\<close>

fun rules ::
  "(json \<Rightarrow> py_error + string) \<Rightarrow> json \<Rightarrow> json list \<Rightarrow> py_error + config_entity list" where
  "rules type_of namespace' [] = Inr []"
| "rules type_of namespace' (policy # policies) =
     rbind (getitem policy ''metadata'') (\<lambda>metadata.
     rbind (getitem metadata ''name'') (\<lambda>n.
     rbind (type_of policy) (\<lambda>t.
     rbind (rules type_of namespace' policies) (\<lambda>rest.
       Inr (Rule n namespace' t # rest)))))"

definition rule_type :: "json \<Rightarrow> py_error + string" where
  "rule_type policy = member_text IstioConfigObjectType ''RULE''"

text \<open>\<^verbatim>\<open>'{}: {}'.format(OBJECT_TYPE.ADAPTER.text, _policy['adapter'])\<close>, and for templates.\<close>

definition adapter_type :: "(json \<Rightarrow> string) \<Rightarrow> json \<Rightarrow> py_error + string" where
  "adapter_type str_of policy =
     rbind (member_text IstioConfigObjectType ''ADAPTER'') (\<lambda>t.
     rbind (getitem policy ''adapter'') (\<lambda>a.
       Inr (t @ '': '' @ format_arg str_of a)))"

definition template_type :: "(json \<Rightarrow> string) \<Rightarrow> json \<Rightarrow> py_error + string" where
  "template_type str_of policy =
     rbind (member_text IstioConfigObjectType ''TEMPLATE'') (\<lambda>t.
     rbind (getitem policy ''template'') (\<lambda>a.
       Inr (t @ '': '' @ format_arg str_of a)))"

text \<open>The body of the loop over the namespaces: the nine blocks, in the order of the source.\<close>

definition namespace_items ::
  "backend \<Rightarrow> (json \<Rightarrow> string) \<Rightarrow> json \<Rightarrow> py_error + config_entity list" where
  "namespace_items b str_of namespace' =
     rbind (get_response b ''istioConfigList'' [(''namespace'', namespace')]) (\<lambda>data.
     rbind (section_items data ''destinationRules'') (\<lambda>ps1.
     rbind (istio_configs b namespace' ''DESTINATION_RULE'' ''destinationrules'' ps1) (\<lambda>drs.
     rbind (section_entries data ''rules'') (\<lambda>ps2.
     rbind (rules rule_type namespace' ps2) (\<lambda>rs.
     rbind (section_entries data ''adapters'') (\<lambda>ps3.
     rbind (rules (adapter_type str_of) namespace' ps3) (\<lambda>ads.
     rbind (section_entries data ''templates'') (\<lambda>ps4.
     rbind (rules (template_type str_of) namespace' ps4) (\<lambda>tms.
     rbind (section_items data ''virtualServices'') (\<lambda>ps5.
     rbind (istio_configs b namespace' ''VIRTUAL_SERVICE'' ''virtualservices'' ps5) (\<lambda>vss.
     rbind (section_entries data ''quotaSpecs'') (\<lambda>ps6.
     rbind (istio_configs b namespace' ''QUOTA_SPEC'' ''quotaspecs'' ps6) (\<lambda>qss.
     rbind (section_entries data ''quotaSpecBindings'') (\<lambda>ps7.
     rbind (istio_configs b namespace' ''QUOTA_SPEC_BINDING'' ''quotaspecbindings'' ps7) (\<lambda>qbs.
     rbind (section_entries data ''gateways'') (\<lambda>ps8.
     rbind (istio_configs b namespace' ''GATEWAY'' ''gateways'' ps8) (\<lambda>gws.
     rbind (section_entries data ''serviceEntries'') (\<lambda>ps9.
     rbind (istio_configs b namespace' ''SERVICE_ENTRY'' ''serviceentries'' ps9) (\<lambda>ses.
       Inr (drs @ rs @ ads @ tms @ vss @ qss @ qbs @ gws @ ses))))))))))))))))))))"

fun all_items ::
  "backend \<Rightarrow> (json \<Rightarrow> string) \<Rightarrow> json list \<Rightarrow> py_error + config_entity list" where
  "all_items b str_of [] = Inr []"
| "all_items b str_of (namespace' # namespaces) =
     rbind (namespace_items b str_of namespace') (\<lambda>its.
     rbind (all_items b str_of namespaces) (\<lambda>rest. Inr (its @ rest)))"

text \<open>
  The filter stage (lines 336-351). \<^verbatim>\<open>_name in _i.name\<close> is tested on whatever the
  backend sent as the name; \<^verbatim>\<open>_type in _i.object_type\<close> is a substring test.
\<close>

fun matching_name :: "string \<Rightarrow> config_entity list \<Rightarrow> py_error + config_entity list" where
  "matching_name n [] = Inr []"
| "matching_name n (i # its) =
     rbind (py_in n (config_name i)) (\<lambda>hit.
     rbind (matching_name n its) (\<lambda>rest. Inr (if hit then i # rest else rest)))"

fun name_filtered :: "config_entity list \<Rightarrow> string list \<Rightarrow> py_error + config_entity list" where
  "name_filtered its [] = Inr []"
| "name_filtered its (n # ns) =
     rbind (matching_name n its) (\<lambda>hits.
     rbind (name_filtered its ns) (\<lambda>rest. Inr (hits @ rest)))"

definition type_filtered :: "config_entity list \<Rightarrow> string list \<Rightarrow> config_entity list" where
  "type_filtered its types =
     concat (map (\<lambda>t. filter (\<lambda>i. str_contains (object_type i) t) its) types)"

definition apply_filters ::
  "config_entity list \<Rightarrow> string list \<Rightarrow> string list
     \<Rightarrow> py_error + config_entity collection" where
  "apply_filters its istio_names istio_types =
     (if length istio_names > 0 \<or> length istio_types > 0 then
        rbind (name_filtered its istio_names) (\<lambda>name_filtered_list.
          let type_filtered_list = type_filtered its istio_types in
          if length istio_names > 0 \<and> length istio_types > 0
          then Inr (PySet (set name_filtered_list \<inter> set type_filtered_list))
          else if length istio_names > 0 then Inr (PySet (set name_filtered_list))
          else if length istio_types > 0 then Inr (PySet (set type_filtered_list))
          else Inr (PyList its))
      else Inr (PyList its))"

definition istio_config_list ::
  "backend \<Rightarrow> (json \<Rightarrow> string) \<Rightarrow> page_filter list \<Rightarrow> py_error + config_entity collection" where
  "istio_config_list b str_of filters =
     rbind (parse_filters filters ([], [], [])) (\<lambda>(namespaces, istio_names, istio_types).
     rbind (if length namespaces > 0 then Inr (map JStr namespaces) else namespace_list b)
       (\<lambda>namespaces'.
     rbind (all_items b str_of namespaces') (\<lambda>its.
       apply_filters its istio_names istio_types)))"

text \<open>
  A backend for the worked example: one namespace, whose config list holds one adapter
  and one template.
\<close>

definition example_config_backend :: backend where
  "example_config_backend =
     \<lparr>request_json = (\<lambda>method_name kwargs.
        if method_name = ''namespaceList''
        then Inr (JArr [JObj [(''name'', JStr ''istio-system'')]])
        else Inr (JObj
          [(''destinationRules'', JObj []),
           (''rules'', JArr []),
           (''adapters'',
              JArr [JObj [(''metadata'', JObj [(''name'', JStr ''handler'')]),
                          (''adapter'', JStr ''prometheus'')]]),
           (''templates'',
              JArr [JObj [(''metadata'', JObj [(''name'', JStr ''requestcount'')]),
                          (''template'', JStr ''metric'')]]),
           (''virtualServices'', JObj []),
           (''quotaSpecs'', JArr []),
           (''quotaSpecBindings'', JArr []),
           (''gateways'', JArr []),
           (''serviceEntries'', JArr [])])),
      request_validate_json = (\<lambda>method_name kwargs. Inr (JObj [(''validation'', JNull)]))\<rparr>"

section \<open>Detail queries\<close>

text \<open>
  The entity classes the detail queries construct are not among the sources; a
  construction is recorded as \<open>PObj\<close> with the class name and the keyword arguments
  of the call, in the order written. \<open>PJson\<close> is a value of the document stored as
  it came.
\<close>

datatype pyval =
    PNone
  | PJson json
  | PStr string
  | PInt int
  | PHealth "HealthType option"
  | PValidation IstioConfigValidation
  | PPod WorkloadPod
  | PList "pyval list"
  | PObj string "(string \<times> pyval) list"

text \<open>
  What the adapters call outside the sources: \<^verbatim>\<open>json.dumps\<close>, the helpers of
  \<^verbatim>\<open>kiali_qe.utils\<close>, \<^verbatim>\<open><Kind>Health.get_from_rest(d).is_healthy()\<close> of the entity
  modules (by kind), the built-in \<^verbatim>\<open>str\<close> on a value that is not a string, and the
  element \<^verbatim>\<open>set.pop()\<close> picks, which Python leaves open.
\<close>

record library =
  json_dumps :: "json \<Rightarrow> string"
  parse_from_rest :: "json \<Rightarrow> py_error + pyval"
  from_rest_to_ui :: "json \<Rightarrow> py_error + string"
  to_linear_string :: "json \<Rightarrow> py_error + pyval"
  is_healthy :: "string \<Rightarrow> json \<Rightarrow> py_error + HealthType option"
  builtin_str :: "json \<Rightarrow> string"
  set_pop :: "entity set \<Rightarrow> entity"

text \<open>\<^verbatim>\<open>get_istio_config_messages\<close>: the messages of the checks.\<close>

fun check_messages :: "json list \<Rightarrow> py_error + json list" where
  "check_messages [] = Inr []"
| "check_messages (check # checks) =
     rbind (getitem check ''message'') (\<lambda>m.
     rbind (check_messages checks) (\<lambda>ms. Inr (m # ms)))"

definition get_istio_config_messages ::
  "backend \<Rightarrow> json \<Rightarrow> json \<Rightarrow> json \<Rightarrow> py_error + json list" where
  "get_istio_config_messages b namespace' object_type' object_name =
     rbind (get_validation b ''istioConfigDetails''
              [(''namespace'', namespace'), (''object_type'', object_type'),
               (''object'', object_name)]) (\<lambda>health_data.
       if truthy health_data then
         rbind (getitem health_data ''checks'') (\<lambda>checks.
         rbind (py_len checks) (\<lambda>n.
           if n > 0 then rbind (py_iter checks) check_messages else Inr []))
       else Inr [])"

text \<open>
  The seven \<^verbatim>\<open>if _data[key]: config_data = _data[key]\<close> of \<^verbatim>\<open>istio_config_details\<close>:
  the last truthy section wins, and a missing key raises.
\<close>

fun pick_config_data :: "json \<Rightarrow> string list \<Rightarrow> json \<Rightarrow> py_error + json" where
  "pick_config_data data [] config_data = Inr config_data"
| "pick_config_data data (key # keys) config_data =
     rbind (getitem data key) (\<lambda>v.
       pick_config_data data keys (if truthy v then v else config_data))"

definition istio_config_details ::
  "backend \<Rightarrow> library \<Rightarrow> string \<Rightarrow> string \<Rightarrow> string \<Rightarrow> py_error + pyval" where
  "istio_config_details b lib namespace' object_type' object_name =
     rbind (get_response b ''istioConfigDetails''
              [(''namespace'', JStr namespace'), (''object_type'', JStr object_type'),
               (''object'', JStr object_name)]) (\<lambda>data.
       if truthy data then
         rbind (pick_config_data data
                  [''destinationRule'', ''rule'', ''virtualService'', ''quotaSpec'',
                   ''quotaSpecBinding'', ''gateway'', ''serviceEntry''] JNull) (\<lambda>config_data.
           if truthy config_data then
             rbind (getitem config_data ''metadata'') (\<lambda>metadata.
             rbind (getitem metadata ''name'') (\<lambda>n.
             rbind (getitem data ''objectType'') (\<lambda>ty.
             rbind (get_istio_config_validation b (JStr namespace') (JStr object_type')
                      (JStr object_name)) (\<lambda>v.
             rbind (get_istio_config_messages b (JStr namespace') (JStr object_type')
                      (JStr object_name)) (\<lambda>ms.
               Inr (PObj ''IstioConfigDetails''
                      [(''name'', PJson n),
                       (''_type'', PJson ty),
                       (''text'', PStr (json_dumps lib config_data)),
                       (''validation'', PValidation v),
                       (''error_messages'', PList (map PJson ms))]))))))
           else Inr PNone)
       else Inr PNone)"

text \<open>
  The other three detail queries as their frame: fetch the document, start from the
  result \<^verbatim>\<open>None\<close>, build the entity only \<^verbatim>\<open>if _data:\<close>, return the result. The
  construction from a truthy document is the parameter \<open>build\<close>.
\<close>

definition service_details ::
  "backend \<Rightarrow> (json \<Rightarrow> py_error + 'a) \<Rightarrow> json \<Rightarrow> json \<Rightarrow> py_error + 'a option" where
  "service_details b build namespace' service_name =
     rbind (get_response b ''serviceDetails''
              [(''namespace'', namespace'), (''service'', service_name)]) (\<lambda>service_data.
       if truthy service_data then rbind (build service_data) (\<lambda>service. Inr (Some service))
       else Inr None)"

definition workload_details ::
  "backend \<Rightarrow> (json \<Rightarrow> py_error + 'a) \<Rightarrow> json \<Rightarrow> json \<Rightarrow> py_error + 'a option" where
  "workload_details b build namespace' workload_name =
     rbind (get_response b ''workloadDetails''
              [(''namespace'', namespace'), (''workload'', workload_name)]) (\<lambda>workload_data.
       if truthy workload_data
       then rbind (build workload_data) (\<lambda>workload. Inr (Some workload))
       else Inr None)"

definition application_details ::
  "backend \<Rightarrow> (json \<Rightarrow> py_error + 'a) \<Rightarrow> json \<Rightarrow> json \<Rightarrow> py_error + 'a option" where
  "application_details b build namespace' application_name =
     rbind (get_response b ''appDetails''
              [(''namespace'', namespace'), (''app'', application_name)]) (\<lambda>application_data.
       if truthy application_data
       then rbind (build application_data) (\<lambda>application. Inr (Some application))
       else Inr None)"

text \<open>A library for the worked examples: every helper answers with a fixed value.\<close>

definition example_library :: library where
  "example_library =
     \<lparr>json_dumps = (\<lambda>v. ''{}''),
      parse_from_rest = (\<lambda>v. Inr (PJson v)),
      from_rest_to_ui = (\<lambda>v. Inr ''now''),
      to_linear_string = (\<lambda>v. Inr (PJson v)),
      is_healthy = (\<lambda>kind v. Inr (Some HEALTHY)),
      builtin_str = (\<lambda>v. ''?''),
      set_pop = (\<lambda>s. \<lparr>entity_namespace = JNull, entity_name = JNull,
                        istio_sidecar = JNull, health = None\<rparr>)\<rparr>"

section \<open>Overview equality\<close>

text \<open>
  C7. Whenever \<^verbatim>\<open>a.is_equal(b, advanced_check=True)\<close> holds, so does
  \<^verbatim>\<open>a.is_equal(b, advanced_check=False)\<close>: the advanced check only adds the
  comparisons of the healthy, unhealthy and degraded counts to the basic one.
\<close>

theorem is_equal_advanced_implies_basic:
  "is_equal a b True \<Longrightarrow> is_equal a b False"
  by (cases b) (simp_all split: if_splits)

theorem is_equal_advanced_implies_basic_witness:
  "is_equal \<lparr>overview_type = ''Apps'', namespace = ''bookinfo'', items = 3,
              unhealthy = 0, healthy = 2, degraded = 1\<rparr>
     (OverviewObj \<lparr>overview_type = ''Apps'', namespace = ''bookinfo'', items = 3,
              unhealthy = 0, healthy = 2, degraded = 1\<rparr>) True
   \<and> is_equal \<lparr>overview_type = ''Apps'', namespace = ''bookinfo'', items = 3,
              unhealthy = 0, healthy = 2, degraded = 1\<rparr>
     (OverviewObj \<lparr>overview_type = ''Apps'', namespace = ''bookinfo'', items = 3,
              unhealthy = 0, healthy = 2, degraded = 1\<rparr>) False"
proof -
  have adv: "is_equal \<lparr>overview_type = ''Apps'', namespace = ''bookinfo'', items = 3,
              unhealthy = 0, healthy = 2, degraded = 1\<rparr>
     (OverviewObj \<lparr>overview_type = ''Apps'', namespace = ''bookinfo'', items = 3,
              unhealthy = 0, healthy = 2, degraded = 1\<rparr>) True"
    by simp
  from adv is_equal_advanced_implies_basic [OF adv] show ?thesis by blast
qed

section \<open>Pod grouping: the groups\<close>

lemma str_nat_small: "n < 10 \<Longrightarrow> str_nat n = [''0123456789'' ! n]"
  by (simp add: str_nat.simps)

lemma groupby_concat: "concat (map snd (groupby key xs)) = xs"
proof (induction key xs rule: groupby.induct)
  case (1 key)
  show ?case by simp
next
  case (2 key x xs)
  have "concat (map snd (groupby key (x # xs))) =
        x # takeWhile (\<lambda>y. key y = key x) xs
          @ concat (map snd (groupby key (dropWhile (\<lambda>y. key y = key x) xs)))"
    by simp
  also have "\<dots> = x # takeWhile (\<lambda>y. key y = key x) xs @ dropWhile (\<lambda>y. key y = key x) xs"
    using "2.IH" by simp
  also have "\<dots> = x # xs" by simp
  finally show ?case .
qed

lemma groupby_groups:
  "(k, g) \<in> set (groupby key xs) \<Longrightarrow> g \<noteq> [] \<and> (\<forall>x\<in>set g. key x = k)"
proof (induction key xs rule: groupby.induct)
  case (1 key)
  then show ?case by simp
next
  case (2 key x xs)
  from "2.prems" have
    "(k, g) = (key x, x # takeWhile (\<lambda>y. key y = key x) xs)
     \<or> (k, g) \<in> set (groupby key (dropWhile (\<lambda>y. key y = key x) xs))"
    by (simp only: groupby.simps list.set insert_iff)
  then show ?case
  proof
    assume "(k, g) = (key x, x # takeWhile (\<lambda>y. key y = key x) xs)"
    then have k: "k = key x" and g: "g = x # takeWhile (\<lambda>y. key y = key x) xs"
      by (simp_all only: prod.inject)
    have tw: "\<forall>z\<in>set (takeWhile (\<lambda>y. key y = key x) xs). key z = key x"
    proof
      fix z assume "z \<in> set (takeWhile (\<lambda>y. key y = key x) xs)"
      from set_takeWhileD [OF this] show "key z = key x" by (rule conjunct2)
    qed
    show ?thesis
    proof (intro conjI ballI)
      show "g \<noteq> []" unfolding g by simp
    next
      fix z assume "z \<in> set g"
      then have "z = x \<or> z \<in> set (takeWhile (\<lambda>y. key y = key x) xs)"
        unfolding g by simp
      then show "key z = k" unfolding k using tw by blast
    qed
  next
    assume "(k, g) \<in> set (groupby key (dropWhile (\<lambda>y. key y = key x) xs))"
    then show ?thesis by (rule "2.IH")
  qed
qed

lemma groupby_distinct_adj: "distinct_adj (map fst (groupby key xs))"
proof (induction key xs rule: groupby.induct)
  case (1 key)
  then show ?case by simp
next
  case (2 key x xs)
  define r where "r = dropWhile (\<lambda>y. key y = key x) xs"
  have ih: "distinct_adj (map fst (groupby key r))"
    using 2 by (simp add: r_def)
  have eq: "map fst (groupby key (x # xs)) = key x # map fst (groupby key r)"
    by (simp add: r_def)
  show ?case
  proof (cases r)
    case Nil
    show ?thesis unfolding eq Nil by simp
  next
    case (Cons y ys)
    have ne: "dropWhile (\<lambda>y. key y = key x) xs \<noteq> []"
      using Cons r_def by simp
    have "key (hd r) \<noteq> key x"
      using hd_dropWhile [OF ne] by (simp add: r_def)
    then have kneq: "key x \<noteq> key y" using Cons by simp
    obtain t where t: "map fst (groupby key r) = key y # t"
      using Cons by simp
    have "distinct_adj (key y # t)"
      using ih unfolding t .
    then have "distinct_adj (key x # key y # t)"
      using kneq by (simp add: distinct_adj_Cons_Cons)
    then show ?thesis unfolding eq t .
  qed
qed

lemma groupby_length: "length (groupby key xs) \<le> length xs"
proof (induction key xs rule: groupby.induct)
  case (1 key)
  then show ?case by simp
next
  case (2 key x xs)
  have "length (dropWhile (\<lambda>y. key y = key x) xs) \<le> length xs"
    by (rule length_dropWhile_le)
  with 2 show ?case by simp
qed


lemma group_rows_ok:
  assumes "\<forall>kg\<in>set gs. snd kg \<noteq> []" and "gs = [] \<or> pod \<noteq> None"
  shows "\<exists>rows. group_rows pod gs = Inr rows \<and>
           list_all2 (\<lambda>row kg. created_by row = fst kg
               \<and> (length (snd kg) = 1 \<longrightarrow> name row = name (hd (snd kg)) @ '' (1 replica)'')
               \<and> (1 < length (snd kg) \<longrightarrow>
                    (\<exists>pre. name row = pre @ ''... ('' @ str_nat (length (snd kg)) @ '' replicas)'')))
             rows gs"
  using assms
proof (induction gs arbitrary: pod)
  case Nil
  then show ?case by simp
next
  case (Cons kg gs)
  obtain k g where kg: "kg = (k, g)" by (cases kg)
  from Cons.prems kg have g: "g \<noteq> []" by simp
  from Cons.prems obtain p where p: "pod = Some p" by auto
  from Cons.prems have rest: "\<forall>kg\<in>set gs. snd kg \<noteq> []" by simp
  show ?case
  proof (cases "1 < length g")
    case True
    define row where "row = \<lparr>name = take (length (name p) - 5) (name p) @ ''... (''
                                @ str_nat (length g) @ '' replicas)'',
                        created_at = created_at p @ '' and '' @ created_at (g ! (length g - 1)),
                        created_by = k,
                        labels = labels (g ! 0),
                        istio_init_containers = istio_init_containers (g ! 0),
                        istio_containers = istio_containers (g ! 0),
                        status = status (g ! 0),
                        phase = phase (g ! 0)\<rparr>"
    from Cons.IH [OF rest, of "Some row"] obtain rows where
      rows: "group_rows (Some row) gs = Inr rows" and
      rel: "list_all2 (\<lambda>row kg. created_by row = fst kg
               \<and> (length (snd kg) = 1 \<longrightarrow> name row = name (hd (snd kg)) @ '' (1 replica)'')
               \<and> (1 < length (snd kg) \<longrightarrow>
                    (\<exists>pre. name row = pre @ ''... ('' @ str_nat (length (snd kg)) @ '' replicas)'')))
             rows gs"
      by auto
    have eq: "group_rows pod (kg # gs) = Inr (row # rows)"
      using True rows by (simp add: kg p Let_def rbind_def row_def)
    have "created_by row = k" by (simp add: row_def)
    moreover have "\<exists>pre. name row = pre @ ''... ('' @ str_nat (length g) @ '' replicas)''"
      by (rule exI [of _ "take (length (name p) - 5) (name p)"]) (simp add: row_def)
    ultimately show ?thesis using eq rel True by (simp add: kg)
  next
    case False
    with g have one: "length g = 1" by (cases g) auto
    define row where "row = \<lparr>name = name (g ! 0) @ '' (1 replica)'',
                    created_at = created_at (g ! 0),
                    created_by = k,
                    labels = labels (g ! 0),
                    istio_init_containers = istio_init_containers (g ! 0),
                    istio_containers = istio_containers (g ! 0),
                    status = status (g ! 0),
                    phase = phase (g ! 0)\<rparr>"
    from Cons.IH [OF rest, of "Some row"] obtain rows where
      rows: "group_rows (Some row) gs = Inr rows" and
      rel: "list_all2 (\<lambda>row kg. created_by row = fst kg
               \<and> (length (snd kg) = 1 \<longrightarrow> name row = name (hd (snd kg)) @ '' (1 replica)'')
               \<and> (1 < length (snd kg) \<longrightarrow>
                    (\<exists>pre. name row = pre @ ''... ('' @ str_nat (length (snd kg)) @ '' replicas)'')))
             rows gs"
      by auto
    have eq: "group_rows pod (kg # gs) = Inr (row # rows)"
      using one rows by (simp add: kg p Let_def rbind_def row_def)
    have "created_by row = k" by (simp add: row_def)
    moreover have "name row = name (hd g) @ '' (1 replica)''"
      using g by (simp add: row_def hd_conv_nth)
    ultimately show ?thesis using eq rel one by (simp add: kg)
  qed
qed


lemma group_pods_general:
  "\<exists>rows runs. group_pods all_pods = Inr rows
     \<and> concat runs = all_pods
     \<and> length rows = length runs
     \<and> length rows \<le> length all_pods
     \<and> distinct_adj (map created_by rows)
     \<and> (\<forall>i<length rows. runs ! i \<noteq> []
          \<and> (\<forall>p\<in>set (runs ! i). created_by p = created_by (rows ! i))
          \<and> (length (runs ! i) = 1 \<longrightarrow>
                name (rows ! i) = name (hd (runs ! i)) @ '' (1 replica)'')
          \<and> (1 < length (runs ! i) \<longrightarrow>
                (\<exists>pre. name (rows ! i) =
                   pre @ ''... ('' @ str_nat (length (runs ! i)) @ '' replicas)'')))"
proof -
  define gs where "gs = groupby get_created_by all_pods"
  define pod where "pod = (if all_pods = [] then None else Some (last all_pods))"
  have ne: "\<forall>kg\<in>set gs. snd kg \<noteq> []"
  proof
    fix kg assume "kg \<in> set gs"
    then have "(fst kg, snd kg) \<in> set (groupby get_created_by all_pods)"
      by (simp add: gs_def)
    from groupby_groups [OF this] show "snd kg \<noteq> []" by (rule conjunct1)
  qed
  have bound: "gs = [] \<or> pod \<noteq> None"
    by (cases all_pods) (simp_all add: gs_def pod_def)
  from group_rows_ok [OF ne bound] obtain rows where
    rows: "group_rows pod gs = Inr rows" and
    rel: "list_all2 (\<lambda>row kg. created_by row = fst kg
               \<and> (length (snd kg) = 1 \<longrightarrow> name row = name (hd (snd kg)) @ '' (1 replica)'')
               \<and> (1 < length (snd kg) \<longrightarrow>
                    (\<exists>pre. name row = pre @ ''... ('' @ str_nat (length (snd kg)) @ '' replicas)'')))
             rows gs"
    by blast
  have len: "length rows = length gs" using rel by (rule list_all2_lengthD)
  have res: "group_pods all_pods = Inr rows"
    using rows by (simp add: group_pods_def gs_def pod_def)
  have cat: "concat (map snd gs) = all_pods"
    unfolding gs_def by (rule groupby_concat)
  have le: "length rows \<le> length all_pods"
    using len groupby_length [of get_created_by all_pods] by (simp add: gs_def)
  have keys: "map created_by rows = map fst gs"
  proof (rule nth_equalityI)
    show "length (map created_by rows) = length (map fst gs)" using len by simp
  next
    fix i assume "i < length (map created_by rows)"
    then have i: "i < length rows" by simp
    from list_all2_nthD [OF rel i] have "created_by (rows ! i) = fst (gs ! i)" by simp
    with i len show "map created_by rows ! i = map fst gs ! i" by simp
  qed
  have adj: "distinct_adj (map created_by rows)"
    unfolding keys gs_def by (rule groupby_distinct_adj)
  have each: "\<forall>i<length rows. map snd gs ! i \<noteq> []
          \<and> (\<forall>p\<in>set (map snd gs ! i). created_by p = created_by (rows ! i))
          \<and> (length (map snd gs ! i) = 1 \<longrightarrow>
                name (rows ! i) = name (hd (map snd gs ! i)) @ '' (1 replica)'')
          \<and> (1 < length (map snd gs ! i) \<longrightarrow>
                (\<exists>pre. name (rows ! i) =
                   pre @ ''... ('' @ str_nat (length (map snd gs ! i)) @ '' replicas)''))"
  proof (intro allI impI)
    fix i assume i: "i < length rows"
    then have ig: "i < length gs" using len by simp
    then have mem: "(fst (gs ! i), snd (gs ! i)) \<in> set (groupby get_created_by all_pods)"
      by (simp add: gs_def [symmetric])
    from groupby_groups [OF mem] have
      g1: "snd (gs ! i) \<noteq> []" and
      g2: "\<forall>x\<in>set (snd (gs ! i)). get_created_by x = fst (gs ! i)"
      by blast+
    from list_all2_nthD [OF rel i] have
      r1: "created_by (rows ! i) = fst (gs ! i)" and
      r2: "length (snd (gs ! i)) = 1 \<longrightarrow>
             name (rows ! i) = name (hd (snd (gs ! i))) @ '' (1 replica)''" and
      r3: "1 < length (snd (gs ! i)) \<longrightarrow>
             (\<exists>pre. name (rows ! i) =
                pre @ ''... ('' @ str_nat (length (snd (gs ! i))) @ '' replicas)'')"
      by blast+
    have g2': "\<forall>p\<in>set (snd (gs ! i)). created_by p = created_by (rows ! i)"
      using g2 unfolding r1 get_created_by_def .
    show "map snd gs ! i \<noteq> []
          \<and> (\<forall>p\<in>set (map snd gs ! i). created_by p = created_by (rows ! i))
          \<and> (length (map snd gs ! i) = 1 \<longrightarrow>
                name (rows ! i) = name (hd (map snd gs ! i)) @ '' (1 replica)'')
          \<and> (1 < length (map snd gs ! i) \<longrightarrow>
                (\<exists>pre. name (rows ! i) =
                   pre @ ''... ('' @ str_nat (length (map snd gs ! i)) @ '' replicas)''))"
      unfolding nth_map [OF ig] using g1 g2' r2 r3 by blast
  qed
  have "group_pods all_pods = Inr rows
     \<and> concat (map snd gs) = all_pods
     \<and> length rows = length (map snd gs)
     \<and> length rows \<le> length all_pods
     \<and> distinct_adj (map created_by rows)
     \<and> (\<forall>i<length rows. map snd gs ! i \<noteq> []
          \<and> (\<forall>p\<in>set (map snd gs ! i). created_by p = created_by (rows ! i))
          \<and> (length (map snd gs ! i) = 1 \<longrightarrow>
                name (rows ! i) = name (hd (map snd gs ! i)) @ '' (1 replica)'')
          \<and> (1 < length (map snd gs ! i) \<longrightarrow>
                (\<exists>pre. name (rows ! i) =
                   pre @ ''... ('' @ str_nat (length (map snd gs ! i)) @ '' replicas)'')))"
    using res cat len le adj each by simp
  then show ?thesis by blast
qed

lemma group_pods_single:
  "group_pods [p] = Inr [p\<lparr>name := name p @ '' (1 replica)''\<rparr>]"
  by (simp add: group_pods_def get_created_by_def rbind_def)

lemma group_pods_AAABB:
  assumes "a \<noteq> b" and "map created_by all_pods = [a, a, a, b, b]"
  shows "\<exists>r1 r2 pre1 pre2. group_pods all_pods = Inr [r1, r2]
           \<and> created_by r1 = a \<and> name r1 = pre1 @ ''... (3 replicas)''
           \<and> created_by r2 = b \<and> name r2 = pre2 @ ''... (2 replicas)''"
proof -
  from assms(2) obtain p1 p2 p3 p4 p5 where
    pods: "all_pods = [p1, p2, p3, p4, p5]" and
    c: "created_by p1 = a" "created_by p2 = a" "created_by p3 = a"
       "created_by p4 = b" "created_by p5 = b"
    by (auto simp: map_eq_Cons_conv)
  have gs: "groupby get_created_by all_pods = [(a, [p1, p2, p3]), (b, [p4, p5])]"
    using assms(1) by (simp add: pods c get_created_by_def)
  show ?thesis
    unfolding group_pods_def gs
    by (simp add: pods Let_def rbind_def str_nat_small)
qed


text \<open>
  C5. Grouping never fails and returns one row per maximal run of adjacent pods with
  the same \<^verbatim>\<open>created_by\<close>: the input is the concatenation of non-empty runs, in order,
  one per row; every pod of a run has its row's \<^verbatim>\<open>created_by\<close>; adjacent rows differ
  in \<^verbatim>\<open>created_by\<close>; there are at most as many rows as pods; a run of one pod is
  labelled \<^verbatim>\<open><name> (1 replica)\<close> and a run of \<open>N > 1\<close> pods carries
  \<^verbatim>\<open>... (<N> replicas)\<close>. A single pod gives one row, the pod itself under the label
  \<^verbatim>\<open><name> (1 replica)\<close>, and five pods owned \<open>a, a, a, b, b\<close> give two rows, of
  3 and of 2 replicas.
\<close>

theorem group_pods_runs:
  "(\<exists>rows runs. group_pods all_pods = Inr rows
     \<and> concat runs = all_pods
     \<and> length rows = length runs
     \<and> length rows \<le> length all_pods
     \<and> distinct_adj (map created_by rows)
     \<and> (\<forall>i<length rows. runs ! i \<noteq> []
          \<and> (\<forall>p\<in>set (runs ! i). created_by p = created_by (rows ! i))
          \<and> (length (runs ! i) = 1 \<longrightarrow>
                name (rows ! i) = name (hd (runs ! i)) @ '' (1 replica)'')
          \<and> (1 < length (runs ! i) \<longrightarrow>
                (\<exists>pre. name (rows ! i) =
                   pre @ ''... ('' @ str_nat (length (runs ! i)) @ '' replicas)''))))
   \<and> group_pods [p] = Inr [p\<lparr>name := name p @ '' (1 replica)''\<rparr>]
   \<and> (a \<noteq> b \<and> map created_by all_pods = [a, a, a, b, b] \<longrightarrow>
        (\<exists>r1 r2 pre1 pre2. group_pods all_pods = Inr [r1, r2]
           \<and> created_by r1 = a \<and> name r1 = pre1 @ ''... (3 replicas)''
           \<and> created_by r2 = b \<and> name r2 = pre2 @ ''... (2 replicas)''))"
proof (intro conjI impI)
  show "\<exists>rows runs. group_pods all_pods = Inr rows
     \<and> concat runs = all_pods
     \<and> length rows = length runs
     \<and> length rows \<le> length all_pods
     \<and> distinct_adj (map created_by rows)
     \<and> (\<forall>i<length rows. runs ! i \<noteq> []
          \<and> (\<forall>p\<in>set (runs ! i). created_by p = created_by (rows ! i))
          \<and> (length (runs ! i) = 1 \<longrightarrow>
                name (rows ! i) = name (hd (runs ! i)) @ '' (1 replica)'')
          \<and> (1 < length (runs ! i) \<longrightarrow>
                (\<exists>pre. name (rows ! i) =
                   pre @ ''... ('' @ str_nat (length (runs ! i)) @ '' replicas)'')))"
    by (rule group_pods_general)
next
  show "group_pods [p] = Inr [p\<lparr>name := name p @ '' (1 replica)''\<rparr>]"
    by (rule group_pods_single)
next
  assume "a \<noteq> b \<and> map created_by all_pods = [a, a, a, b, b]"
  then have "a \<noteq> b" and "map created_by all_pods = [a, a, a, b, b]"
    by (rule conjunct1, rule conjunct2)
  then show "\<exists>r1 r2 pre1 pre2. group_pods all_pods = Inr [r1, r2]
           \<and> created_by r1 = a \<and> name r1 = pre1 @ ''... (3 replicas)''
           \<and> created_by r2 = b \<and> name r2 = pre2 @ ''... (2 replicas)''"
    by (rule group_pods_AAABB)
qed

theorem group_pods_runs_witness:
  "''rs-a (ReplicaSet)'' \<noteq> ''rs-b (ReplicaSet)''
   \<and> map created_by
        [example_pod ''reviews-v1-aaaaa'' ''t1'' ''rs-a (ReplicaSet)'',
         example_pod ''reviews-v1-bbbbb'' ''t2'' ''rs-a (ReplicaSet)'',
         example_pod ''reviews-v1-ccccc'' ''t3'' ''rs-a (ReplicaSet)'',
         example_pod ''reviews-v2-ddddd'' ''t4'' ''rs-b (ReplicaSet)'',
         example_pod ''reviews-v2-eeeee'' ''t5'' ''rs-b (ReplicaSet)'']
       = [''rs-a (ReplicaSet)'', ''rs-a (ReplicaSet)'', ''rs-a (ReplicaSet)'',
          ''rs-b (ReplicaSet)'', ''rs-b (ReplicaSet)'']
   \<and> (\<exists>r1 r2 pre1 pre2.
         group_pods
           [example_pod ''reviews-v1-aaaaa'' ''t1'' ''rs-a (ReplicaSet)'',
            example_pod ''reviews-v1-bbbbb'' ''t2'' ''rs-a (ReplicaSet)'',
            example_pod ''reviews-v1-ccccc'' ''t3'' ''rs-a (ReplicaSet)'',
            example_pod ''reviews-v2-ddddd'' ''t4'' ''rs-b (ReplicaSet)'',
            example_pod ''reviews-v2-eeeee'' ''t5'' ''rs-b (ReplicaSet)''] = Inr [r1, r2]
         \<and> created_by r1 = ''rs-a (ReplicaSet)'' \<and> name r1 = pre1 @ ''... (3 replicas)''
         \<and> created_by r2 = ''rs-b (ReplicaSet)'' \<and> name r2 = pre2 @ ''... (2 replicas)'')"
proof -
  have ne: "''rs-a (ReplicaSet)'' \<noteq> ''rs-b (ReplicaSet)''" by simp
  have owners: "map created_by
        [example_pod ''reviews-v1-aaaaa'' ''t1'' ''rs-a (ReplicaSet)'',
         example_pod ''reviews-v1-bbbbb'' ''t2'' ''rs-a (ReplicaSet)'',
         example_pod ''reviews-v1-ccccc'' ''t3'' ''rs-a (ReplicaSet)'',
         example_pod ''reviews-v2-ddddd'' ''t4'' ''rs-b (ReplicaSet)'',
         example_pod ''reviews-v2-eeeee'' ''t5'' ''rs-b (ReplicaSet)'']
       = [''rs-a (ReplicaSet)'', ''rs-a (ReplicaSet)'', ''rs-a (ReplicaSet)'',
          ''rs-b (ReplicaSet)'', ''rs-b (ReplicaSet)'']"
    by (simp add: example_pod_def)
  note ex = group_pods_runs [of
        "[example_pod ''reviews-v1-aaaaa'' ''t1'' ''rs-a (ReplicaSet)'',
          example_pod ''reviews-v1-bbbbb'' ''t2'' ''rs-a (ReplicaSet)'',
          example_pod ''reviews-v1-ccccc'' ''t3'' ''rs-a (ReplicaSet)'',
          example_pod ''reviews-v2-ddddd'' ''t4'' ''rs-b (ReplicaSet)'',
          example_pod ''reviews-v2-eeeee'' ''t5'' ''rs-b (ReplicaSet)'']"
        "example_pod ''reviews-v1-aaaaa'' ''t1'' ''rs-a (ReplicaSet)''"
        "''rs-a (ReplicaSet)''" "''rs-b (ReplicaSet)''",
        THEN conjunct2, THEN conjunct2, THEN mp, OF conjI, OF ne owners]
  show ?thesis
    by (intro conjI) (rule ne, rule owners, rule ex)
qed

text \<open>
  The rows \<^verbatim>\<open>workload_details\<close> builds for five pods owned \<open>a, a, a, b, b\<close>: the first
  row takes its name prefix and the first half of its \<^verbatim>\<open>created_at\<close> from the last pod
  of the whole document, the second row from the first row; labels, images, status and
  phase are those of the first pod of each group (C4).
\<close>

theorem group_pods_five_pods:
  "group_pods
     [example_pod ''reviews-v1-aaaaa'' ''t1'' ''rs-a (ReplicaSet)'',
      example_pod ''reviews-v1-bbbbb'' ''t2'' ''rs-a (ReplicaSet)'',
      example_pod ''reviews-v1-ccccc'' ''t3'' ''rs-a (ReplicaSet)'',
      example_pod ''reviews-v2-ddddd'' ''t4'' ''rs-b (ReplicaSet)'',
      example_pod ''reviews-v2-eeeee'' ''t5'' ''rs-b (ReplicaSet)'']
   = Inr [example_pod ''reviews-v2-... (3 replicas)'' ''t5 and t3'' ''rs-a (ReplicaSet)'',
          example_pod ''reviews-v2-... (3 repl... (2 replicas)'' ''t5 and t3 and t5''
            ''rs-b (ReplicaSet)'']"
  by (simp add: group_pods_def example_pod_def get_created_by_def Let_def rbind_def
        str_nat_small)

section \<open>Validation verdict: the cases\<close>

lemma severities_wf:
  "\<forall>c\<in>set cs. \<exists>s. getitem c ''severity'' = Inr (JStr s) \<Longrightarrow>
   \<exists>ss. severities cs = Inr ss \<and>
     (JStr ''error'' \<in> set ss \<longleftrightarrow> (\<exists>c\<in>set cs. getitem c ''severity'' = Inr (JStr ''error'')))"
proof (induction cs)
  case Nil
  then show ?case by simp
next
  case (Cons c cs)
  then obtain s where s: "getitem c ''severity'' = Inr (JStr s)" by auto
  from Cons obtain ss where ss: "severities cs = Inr ss"
    and iff: "JStr ''error'' \<in> set ss \<longleftrightarrow> (\<exists>c\<in>set cs. getitem c ''severity'' = Inr (JStr ''error''))"
    by auto
  have "severities (c # cs) = Inr (JStr s # ss)"
    using s ss by (simp add: rbind_def)
  moreover have "JStr ''error'' \<in> set (JStr s # ss) \<longleftrightarrow>
     (\<exists>c'\<in>set (c # cs). getitem c' ''severity'' = Inr (JStr ''error''))"
    using s iff by auto
  ultimately show ?case by blast
qed

lemma getitem_truthy: "getitem d k = Inr v \<Longrightarrow> truthy d"
  by (cases d) (auto split: option.splits)

lemma verdict_not_valid:
  assumes "getitem d ''checks'' = Inr (JArr cs)"
    and "\<forall>c\<in>set cs. \<exists>s. getitem c ''severity'' = Inr (JStr s)"
    and "\<exists>c\<in>set cs. getitem c ''severity'' = Inr (JStr ''error'')"
  shows "validation_verdict d = Inr NOT_VALID"
proof -
  from assms(3) have ne: "cs \<noteq> []" by auto
  from assms(1) have t: "truthy d" by (rule getitem_truthy)
  from severities_wf [OF assms(2)] assms(3) obtain ss where
    "severities cs = Inr ss" "JStr ''error'' \<in> set ss" by blast
  with assms(1) ne t show ?thesis
    by (simp add: validation_verdict_def rbind_def)
qed

lemma verdict_warning:
  assumes "getitem d ''checks'' = Inr (JArr cs)" and "cs \<noteq> []"
    and "\<forall>c\<in>set cs. \<exists>s. getitem c ''severity'' = Inr (JStr s) \<and> s \<noteq> ''error''"
  shows "validation_verdict d = Inr WARNING"
proof -
  from assms(1) have t: "truthy d" by (rule getitem_truthy)
  from assms(3) have wf: "\<forall>c\<in>set cs. \<exists>s. getitem c ''severity'' = Inr (JStr s)" by blast
  from assms(3) have no: "\<not> (\<exists>c\<in>set cs. getitem c ''severity'' = Inr (JStr ''error''))"
    by fastforce
  from severities_wf [OF wf] no obtain ss where
    "severities cs = Inr ss" "JStr ''error'' \<notin> set ss" by blast
  with assms(1,2) t show ?thesis
    by (simp add: validation_verdict_def rbind_def)
qed

lemma verdict_valid:
  assumes "getitem d ''checks'' = Inr (JArr [])"
  shows "validation_verdict d = Inr VALID"
  using assms getitem_truthy [OF assms] by (simp add: validation_verdict_def rbind_def)

lemma verdict_na: "\<not> truthy d \<Longrightarrow> validation_verdict d = Inr VALIDATION_NA"
  by (simp add: validation_verdict_def)

text \<open>
  C3. When the validation document carries a \<^verbatim>\<open>checks\<close> array whose entries all have a
  severity text and at least one of them has severity \<^verbatim>\<open>error\<close>, the verdict is
  \<^verbatim>\<open>NOT_VALID\<close>, whatever the other entries are.
\<close>

theorem validation_error_not_valid:
  assumes "get_validation b ''istioConfigDetails''
             [(''namespace'', ns), (''object_type'', ot), (''object'', on)] = Inr d"
    and "getitem d ''checks'' = Inr (JArr cs)"
    and "\<forall>c\<in>set cs. \<exists>s. getitem c ''severity'' = Inr (JStr s)"
    and "\<exists>c\<in>set cs. getitem c ''severity'' = Inr (JStr ''error'')"
  shows "get_istio_config_validation b ns ot on = Inr NOT_VALID"
  using assms(1) verdict_not_valid [OF assms(2-4)]
  by (simp add: get_istio_config_validation_def rbind_def)

theorem validation_error_not_valid_witness:
  "get_istio_config_validation
     (fixed_backend JNull
        (JObj [(''validation'',
           JObj [(''checks'',
             JArr [JObj [(''severity'', JStr ''warning''), (''message'', JStr ''m1'')],
                   JObj [(''severity'', JStr ''error''), (''message'', JStr ''m2'')],
                   JObj [(''severity'', JStr ''warning''), (''message'', JStr ''m3'')]])])]))
     (JStr ''bookinfo'') (JStr ''virtualservices'') (JStr ''reviews'') = Inr NOT_VALID"
proof (rule validation_error_not_valid)
  show "get_validation
     (fixed_backend JNull
        (JObj [(''validation'',
           JObj [(''checks'',
             JArr [JObj [(''severity'', JStr ''warning''), (''message'', JStr ''m1'')],
                   JObj [(''severity'', JStr ''error''), (''message'', JStr ''m2'')],
                   JObj [(''severity'', JStr ''warning''), (''message'', JStr ''m3'')]])])]))
     ''istioConfigDetails''
     [(''namespace'', JStr ''bookinfo''), (''object_type'', JStr ''virtualservices''),
      (''object'', JStr ''reviews'')]
    = Inr (JObj [(''checks'',
             JArr [JObj [(''severity'', JStr ''warning''), (''message'', JStr ''m1'')],
                   JObj [(''severity'', JStr ''error''), (''message'', JStr ''m2'')],
                   JObj [(''severity'', JStr ''warning''), (''message'', JStr ''m3'')]])])"
    by (simp add: get_validation_def fixed_backend_def rbind_def)
next
  show "getitem (JObj [(''checks'',
             JArr [JObj [(''severity'', JStr ''warning''), (''message'', JStr ''m1'')],
                   JObj [(''severity'', JStr ''error''), (''message'', JStr ''m2'')],
                   JObj [(''severity'', JStr ''warning''), (''message'', JStr ''m3'')]])])
          ''checks''
        = Inr (JArr [JObj [(''severity'', JStr ''warning''), (''message'', JStr ''m1'')],
                   JObj [(''severity'', JStr ''error''), (''message'', JStr ''m2'')],
                   JObj [(''severity'', JStr ''warning''), (''message'', JStr ''m3'')]])"
    by simp
next
  show "\<forall>c\<in>set [JObj [(''severity'', JStr ''warning''), (''message'', JStr ''m1'')],
                   JObj [(''severity'', JStr ''error''), (''message'', JStr ''m2'')],
                   JObj [(''severity'', JStr ''warning''), (''message'', JStr ''m3'')]].
          \<exists>s. getitem c ''severity'' = Inr (JStr s)"
    by simp
next
  show "\<exists>c\<in>set [JObj [(''severity'', JStr ''warning''), (''message'', JStr ''m1'')],
                   JObj [(''severity'', JStr ''error''), (''message'', JStr ''m2'')],
                   JObj [(''severity'', JStr ''warning''), (''message'', JStr ''m3'')]].
          getitem c ''severity'' = Inr (JStr ''error'')"
    by simp
qed

text \<open>
  C2, amended. The verdict is \<^verbatim>\<open>NA\<close> when the validation document is absent or empty
  (falsy), \<^verbatim>\<open>VALID\<close> when the document carries an empty \<^verbatim>\<open>checks\<close> array, and
  \<^verbatim>\<open>WARNING\<close> when the array is non-empty and every entry has a severity text other
  than \<^verbatim>\<open>error\<close>.
\<close>

theorem validation_na_valid_warning:
  assumes "get_validation b ''istioConfigDetails''
             [(''namespace'', ns), (''object_type'', ot), (''object'', on)] = Inr d"
  shows "(\<not> truthy d \<longrightarrow> get_istio_config_validation b ns ot on = Inr VALIDATION_NA)
       \<and> (getitem d ''checks'' = Inr (JArr []) \<longrightarrow>
            get_istio_config_validation b ns ot on = Inr VALID)
       \<and> (getitem d ''checks'' = Inr (JArr cs) \<and> cs \<noteq> []
            \<and> (\<forall>c\<in>set cs. \<exists>s. getitem c ''severity'' = Inr (JStr s) \<and> s \<noteq> ''error'') \<longrightarrow>
            get_istio_config_validation b ns ot on = Inr WARNING)"
proof -
  have eq: "get_istio_config_validation b ns ot on = validation_verdict d"
    using assms by (simp add: get_istio_config_validation_def rbind_def)
  show ?thesis
    unfolding eq using verdict_na verdict_valid verdict_warning by blast
qed

theorem validation_na_valid_warning_witness:
  "get_istio_config_validation (fixed_backend JNull (JObj [(''validation'', JNull)]))
     (JStr ''bookinfo'') (JStr ''gateways'') (JStr ''gw'') = Inr VALIDATION_NA
   \<and> get_istio_config_validation
       (fixed_backend JNull (JObj [(''validation'', JObj [(''checks'', JArr [])])]))
       (JStr ''bookinfo'') (JStr ''gateways'') (JStr ''gw'') = Inr VALID
   \<and> get_istio_config_validation
       (fixed_backend JNull
          (JObj [(''validation'',
             JObj [(''checks'', JArr [JObj [(''severity'', JStr ''warning'')]])])]))
       (JStr ''bookinfo'') (JStr ''gateways'') (JStr ''gw'') = Inr WARNING"
proof (intro conjI)
  have "get_validation (fixed_backend JNull (JObj [(''validation'', JNull)]))
          ''istioConfigDetails''
          [(''namespace'', JStr ''bookinfo''), (''object_type'', JStr ''gateways''),
           (''object'', JStr ''gw'')] = Inr JNull"
    by (simp add: get_validation_def fixed_backend_def rbind_def)
  from validation_na_valid_warning [OF this, THEN conjunct1]
  show "get_istio_config_validation (fixed_backend JNull (JObj [(''validation'', JNull)]))
     (JStr ''bookinfo'') (JStr ''gateways'') (JStr ''gw'') = Inr VALIDATION_NA"
    by simp
next
  have "get_validation
          (fixed_backend JNull (JObj [(''validation'', JObj [(''checks'', JArr [])])]))
          ''istioConfigDetails''
          [(''namespace'', JStr ''bookinfo''), (''object_type'', JStr ''gateways''),
           (''object'', JStr ''gw'')] = Inr (JObj [(''checks'', JArr [])])"
    by (simp add: get_validation_def fixed_backend_def rbind_def)
  from validation_na_valid_warning [OF this, THEN conjunct2, THEN conjunct1]
  show "get_istio_config_validation
       (fixed_backend JNull (JObj [(''validation'', JObj [(''checks'', JArr [])])]))
       (JStr ''bookinfo'') (JStr ''gateways'') (JStr ''gw'') = Inr VALID"
    by simp
next
  have "get_validation
          (fixed_backend JNull
            (JObj [(''validation'',
               JObj [(''checks'', JArr [JObj [(''severity'', JStr ''warning'')]])])]))
          ''istioConfigDetails''
          [(''namespace'', JStr ''bookinfo''), (''object_type'', JStr ''gateways''),
           (''object'', JStr ''gw'')]
        = Inr (JObj [(''checks'', JArr [JObj [(''severity'', JStr ''warning'')]])])"
    by (simp add: get_validation_def fixed_backend_def rbind_def)
  from validation_na_valid_warning [OF this, THEN conjunct2, THEN conjunct2,
         of "[JObj [(''severity'', JStr ''warning'')]]"]
  show "get_istio_config_validation
       (fixed_backend JNull
          (JObj [(''validation'',
             JObj [(''checks'', JArr [JObj [(''severity'', JStr ''warning'')]])])]))
       (JStr ''bookinfo'') (JStr ''gateways'') (JStr ''gw'') = Inr WARNING"
    by simp
qed

text \<open>
  C2 as stated fails: a document with an empty \<^verbatim>\<open>checks\<close> array is judged
  \<^verbatim>\<open>VALID\<close>, not \<^verbatim>\<open>NA\<close>.
\<close>

theorem validation_empty_checks_is_valid:
  "get_istio_config_validation
     (fixed_backend JNull (JObj [(''validation'', JObj [(''checks'', JArr [])])]))
     (JStr ''bookinfo'') (JStr ''gateways'') (JStr ''gw'') = Inr VALID
   \<and> get_istio_config_validation
     (fixed_backend JNull (JObj [(''validation'', JObj [(''checks'', JArr [])])]))
     (JStr ''bookinfo'') (JStr ''gateways'') (JStr ''gw'') \<noteq> Inr VALIDATION_NA"
  by (simp add: get_istio_config_validation_def get_validation_def fixed_backend_def
        validation_verdict_def rbind_def)

section \<open>Overview health buckets: the counts\<close>

lemma bucket_step_None: "bucket_step c None = c"
  by (simp add: bucket_step_def)

lemma bucket_step_Some:
  "bucket_step c (Some HEALTHY) = c\<lparr>n_healthy := n_healthy c + 1\<rparr>"
  "bucket_step c (Some DEGRADED) = c\<lparr>n_degraded := n_degraded c + 1\<rparr>"
  "bucket_step c (Some FAILURE) = c\<lparr>n_unhealthy := n_unhealthy c + 1\<rparr>"
  "bucket_step c (Some HEALTH_NA) = c\<lparr>n_na := n_na c + 1\<rparr>"
  by (simp_all add: bucket_step_def)

lemma foldl_bucket_step:
  "n_healthy (foldl bucket_step c hs) = n_healthy c + int (length (filter (\<lambda>h. h = Some HEALTHY) hs))
   \<and> n_unhealthy (foldl bucket_step c hs) = n_unhealthy c + int (length (filter (\<lambda>h. h = Some FAILURE) hs))
   \<and> n_degraded (foldl bucket_step c hs) = n_degraded c + int (length (filter (\<lambda>h. h = Some DEGRADED) hs))
   \<and> n_na (foldl bucket_step c hs) = n_na c + int (length (filter (\<lambda>h. h = Some HEALTH_NA) hs))"
proof (induction hs arbitrary: c)
  case Nil
  show ?case by simp
next
  case (Cons h hs)
  show ?case
  proof (cases h)
    case None
    then show ?thesis using Cons [of c] by (simp add: bucket_step_None)
  next
    case (Some v)
    then show ?thesis
      using Cons [of "bucket_step c (Some v)"]
      by (cases v) (simp_all add: bucket_step_Some)
  qed
qed

lemma length_filter_health:
  "length (filter (\<lambda>h. h = v) (map health its)) = length (filter (\<lambda>i. health i = v) its)"
  by (induction its) simp_all

lemma count_members:
  "length (filter (\<lambda>i. health i = Some HEALTHY) its)
   + length (filter (\<lambda>i. health i = Some FAILURE) its)
   + length (filter (\<lambda>i. health i = Some DEGRADED) its)
   + length (filter (\<lambda>i. health i = Some HEALTH_NA) its)
   = length (filter (\<lambda>i. health i \<noteq> None) its)"
proof (induction its)
  case Nil
  show ?case by simp
next
  case (Cons i its)
  show ?case
  proof (cases "health i")
    case None
    with Cons show ?thesis by simp
  next
    case (Some v)
    with Cons show ?thesis by (cases v) simp_all
  qed
qed

text \<open>
  C1, amended. In the pass over the items, an item whose health is one of the four
  \<^verbatim>\<open>HealthType\<close> members adds one to the counter of that member and leaves the other
  three as they are, and an item whose health is \<^verbatim>\<open>None\<close> changes no counter. So each
  counter ends as the number of items with its health value, no item is counted twice,
  and the four counters sum to the number of items that have a health value.
\<close>

theorem health_buckets_counts:
  "n_healthy (health_buckets its) = int (length (filter (\<lambda>i. health i = Some HEALTHY) its))
   \<and> n_unhealthy (health_buckets its) = int (length (filter (\<lambda>i. health i = Some FAILURE) its))
   \<and> n_degraded (health_buckets its) = int (length (filter (\<lambda>i. health i = Some DEGRADED) its))
   \<and> n_na (health_buckets its) = int (length (filter (\<lambda>i. health i = Some HEALTH_NA) its))
   \<and> n_healthy (health_buckets its) + n_unhealthy (health_buckets its)
       + n_degraded (health_buckets its) + n_na (health_buckets its)
       = int (length (filter (\<lambda>i. health i \<noteq> None) its))
   \<and> health_buckets (its @ [i]) = bucket_step (health_buckets its) (health i)
   \<and> bucket_step c (Some HEALTHY) = c\<lparr>n_healthy := n_healthy c + 1\<rparr>
   \<and> bucket_step c (Some FAILURE) = c\<lparr>n_unhealthy := n_unhealthy c + 1\<rparr>
   \<and> bucket_step c (Some DEGRADED) = c\<lparr>n_degraded := n_degraded c + 1\<rparr>
   \<and> bucket_step c (Some HEALTH_NA) = c\<lparr>n_na := n_na c + 1\<rparr>
   \<and> bucket_step c None = c"
proof -
  note f = foldl_bucket_step [of "\<lparr>n_healthy = 0, n_unhealthy = 0, n_degraded = 0, n_na = 0\<rparr>"
      "map health its", unfolded length_filter_health]
  have a: "n_healthy (health_buckets its) = int (length (filter (\<lambda>i. health i = Some HEALTHY) its))"
    using f by (simp add: health_buckets_def)
  have b: "n_unhealthy (health_buckets its) = int (length (filter (\<lambda>i. health i = Some FAILURE) its))"
    using f by (simp add: health_buckets_def)
  have c: "n_degraded (health_buckets its) = int (length (filter (\<lambda>i. health i = Some DEGRADED) its))"
    using f by (simp add: health_buckets_def)
  have d: "n_na (health_buckets its) = int (length (filter (\<lambda>i. health i = Some HEALTH_NA) its))"
    using f by (simp add: health_buckets_def)
  have s: "n_healthy (health_buckets its) + n_unhealthy (health_buckets its)
       + n_degraded (health_buckets its) + n_na (health_buckets its)
       = int (length (filter (\<lambda>i. health i \<noteq> None) its))"
    unfolding a b c d using count_members [of its] by linarith
  have step: "health_buckets (its @ [i]) = bucket_step (health_buckets its) (health i)"
    by (simp add: health_buckets_def)
  show ?thesis
    using a b c d s step bucket_step_Some [of c] bucket_step_None [of c] by simp
qed

text \<open>
  C1 as stated fails: an item without a health value increments none of the four
  counters, the one for \<^verbatim>\<open>N/A\<close> included.
\<close>

theorem health_None_counts_nowhere:
  "health_buckets [\<lparr>entity_namespace = JStr ''bookinfo'', entity_name = JStr ''reviews'',
                    istio_sidecar = JBool True, health = None\<rparr>]
   = \<lparr>n_healthy = 0, n_unhealthy = 0, n_degraded = 0, n_na = 0\<rparr>"
  by (simp add: health_buckets_def bucket_step_def)

text \<open>
  The constructor call that follows the pass cannot bind its keyword \<^verbatim>\<open>na\<close>:
  \<^verbatim>\<open>Overview.__init__\<close> has no such parameter.
\<close>

lemma overview_of_raises: "overview_of overview_type' namespace' its = Inl TypeError"
  by (simp add: overview_of_def accepts_keywords_def Overview_init_params_def)

section \<open>Deleting an object that does not exist\<close>

text \<open>
  C10. When the cluster client raises \<^verbatim>\<open>NotFoundError\<close>, from the resource lookup or
  from the delete call, \<^verbatim>\<open>delete_istio_config\<close> returns normally, in the state the
  client left.
\<close>

theorem delete_istio_config_not_found:
  "(resources_get cl kind api_version c = Inl NotFoundError \<longrightarrow>
      delete_istio_config cl name' namespace' kind api_version c = (Inr (), c))
   \<and> (resources_get cl kind api_version c = Inr r
        \<and> resource_delete cl r name' namespace' c = (Inl NotFoundError, c') \<longrightarrow>
      delete_istio_config cl name' namespace' kind api_version c = (Inr (), c'))"
  by (simp add: delete_istio_config_def)

theorem delete_istio_config_not_found_witness:
  "delete_istio_config set_cluster ''gw'' ''bookinfo'' ''Gateway'' ''v1alpha3''
     {(''Gateway'', ''bookinfo'', ''gw'')} = (Inr (), {})
   \<and> delete_istio_config set_cluster ''gw'' ''bookinfo'' ''Gateway'' ''v1alpha3'' {}
     = (Inr (), {})"
proof
  show "delete_istio_config set_cluster ''gw'' ''bookinfo'' ''Gateway'' ''v1alpha3''
     {(''Gateway'', ''bookinfo'', ''gw'')} = (Inr (), {})"
    by (simp add: delete_istio_config_def set_cluster_def)
next
  have g: "resources_get set_cluster ''Gateway'' ''v1alpha3'' {} = Inr ''Gateway''"
    by (simp add: set_cluster_def)
  have d: "resource_delete set_cluster ''Gateway'' ''gw'' ''bookinfo'' {}
           = (Inl NotFoundError, {})"
    by (simp add: set_cluster_def)
  from delete_istio_config_not_found [THEN conjunct2, THEN mp, OF conjI, OF g d]
  show "delete_istio_config set_cluster ''gw'' ''bookinfo'' ''Gateway'' ''v1alpha3'' {}
     = (Inr (), {})" .
qed

section \<open>Istio config list: filters and composite object types\<close>

lemma rbind_eq_Inr: "rbind m f = Inr y \<longleftrightarrow> (\<exists>x. m = Inr x \<and> f x = Inr y)"
  by (cases m) (simp_all add: rbind_def)

lemma parse_filters_raises:
  "fs \<noteq> [] \<Longrightarrow> parse_filters fs acc = Inl AttributeError"
  by (cases fs; cases acc)
     (simp_all add: member_text_def IstioConfigPageFilter_def rbind_def)

lemma istio_config_list_raises:
  "filters \<noteq> [] \<Longrightarrow> istio_config_list b str_of filters = Inl AttributeError"
  by (simp add: istio_config_list_def parse_filters_raises rbind_def)

text \<open>
  C6 on the code: with the filters \<^verbatim>\<open>Istio Type = Gateway\<close> and
  \<^verbatim>\<open>Istio Name = foo\<close> the query raises \<^verbatim>\<open>AttributeError\<close> at
  \<^verbatim>\<open>FILTER_TYPE.NAMESPACE\<close>, whatever the backend holds: \<^verbatim>\<open>IstioConfigPageFilter\<close> has
  the members \<^verbatim>\<open>ISTIO_TYPE\<close>, \<^verbatim>\<open>ISTIO_NAME\<close> and \<^verbatim>\<open>CONFIG\<close> only.
\<close>

theorem istio_config_list_type_and_name_filter:
  "istio_config_list b str_of
     [\<lparr>filter_name = ''Istio Type'', filter_value = ''Gateway''\<rparr>,
      \<lparr>filter_name = ''Istio Name'', filter_value = ''foo''\<rparr>]
   = Inl AttributeError"
  by (simp add: istio_config_list_def member_text_def IstioConfigPageFilter_def rbind_def)

lemma rules_member:
  "rules type_of ns ps = Inr rs \<Longrightarrow> p \<in> set ps \<Longrightarrow>
   \<exists>md n t. getitem p ''metadata'' = Inr md \<and> getitem md ''name'' = Inr n
      \<and> type_of p = Inr t \<and> Rule n ns t \<in> set rs"
proof (induction ps arbitrary: rs)
  case Nil
  then show ?case by simp
next
  case (Cons q ps)
  from Cons.prems(1) obtain md n t rest where
    q: "getitem q ''metadata'' = Inr md" "getitem md ''name'' = Inr n" "type_of q = Inr t"
    and rest: "rules type_of ns ps = Inr rest" and rs: "rs = Rule n ns t # rest"
    by (auto simp: rbind_eq_Inr)
  show ?case
  proof (cases "p = q")
    case True
    with q rs show ?thesis by auto
  next
    case False
    with Cons.prems(2) have "p \<in> set ps" by simp
    from Cons.IH [OF rest this] rs show ?thesis by auto
  qed
qed

lemma section_entries_JArr:
  "getitem data key = Inr (JArr ps) \<Longrightarrow> section_entries data key = Inr ps"
  by (cases ps) (simp_all add: section_entries_def rbind_def)

lemma adapter_type_JStr:
  "getitem p ''adapter'' = Inr (JStr a) \<Longrightarrow> adapter_type str_of p = Inr (''Adapter: '' @ a)"
  by (simp add: adapter_type_def member_text_def IstioConfigObjectType_def rbind_def
        format_arg_def)

lemma template_type_JStr:
  "getitem p ''template'' = Inr (JStr a) \<Longrightarrow> template_type str_of p = Inr (''Template: '' @ a)"
  by (simp add: template_type_def member_text_def IstioConfigObjectType_def rbind_def
        format_arg_def)

lemma namespace_items_parts:
  assumes "namespace_items b str_of ns = Inr its"
    and "get_response b ''istioConfigList'' [(''namespace'', ns)] = Inr data"
  shows "\<exists>ps3 ads ps4 tms. section_entries data ''adapters'' = Inr ps3
           \<and> rules (adapter_type str_of) ns ps3 = Inr ads
           \<and> section_entries data ''templates'' = Inr ps4
           \<and> rules (template_type str_of) ns ps4 = Inr tms
           \<and> set ads \<subseteq> set its \<and> set tms \<subseteq> set its"
  using assms
  by (auto simp: namespace_items_def rbind_eq_Inr)

lemma all_items_member:
  "all_items b str_of nss = Inr its \<Longrightarrow> ns \<in> set nss \<Longrightarrow>
   \<exists>its'. namespace_items b str_of ns = Inr its' \<and> set its' \<subseteq> set its"
proof (induction nss arbitrary: its)
  case Nil
  then show ?case by simp
next
  case (Cons m nss)
  from Cons.prems(1) obtain its1 rest where
    m: "namespace_items b str_of m = Inr its1" and
    rest: "all_items b str_of nss = Inr rest" and its: "its = its1 @ rest"
    by (auto simp: rbind_eq_Inr)
  show ?case
  proof (cases "ns = m")
    case True
    with m its show ?thesis by auto
  next
    case False
    with Cons.prems(2) have "ns \<in> set nss" by simp
    from Cons.IH [OF rest this] its show ?thesis by auto
  qed
qed

lemma istio_config_list_no_filters:
  "istio_config_list b str_of [] = Inr res \<Longrightarrow> namespace_list b = Inr nss \<Longrightarrow>
   \<exists>its. res = PyList its \<and> all_items b str_of nss = Inr its"
  by (auto simp: istio_config_list_def apply_filters_def rbind_eq_Inr)

text \<open>
  C9. In the unfiltered list, every entry of a namespace's \<^verbatim>\<open>adapters\<close> section whose
  \<^verbatim>\<open>adapter\<close> is the text \<open>a\<close> appears as a \<^verbatim>\<open>Rule\<close> with the entry's name, that
  namespace and the object type \<^verbatim>\<open>Adapter: a\<close>; every entry of the \<^verbatim>\<open>templates\<close>
  section whose \<^verbatim>\<open>template\<close> is \<open>t\<close> appears with the object type \<^verbatim>\<open>Template: t\<close>.
\<close>

theorem composite_object_type:
  assumes "istio_config_list b str_of [] = Inr res"
    and "namespace_list b = Inr nss" and "ns \<in> set nss"
    and "get_response b ''istioConfigList'' [(''namespace'', ns)] = Inr data"
  shows "(getitem data ''adapters'' = Inr (JArr ps) \<and> p \<in> set ps
            \<and> getitem p ''adapter'' = Inr (JStr a) \<longrightarrow>
          (\<exists>its md n. res = PyList its \<and> getitem p ''metadata'' = Inr md
              \<and> getitem md ''name'' = Inr n \<and> Rule n ns (''Adapter: '' @ a) \<in> set its))
       \<and> (getitem data ''templates'' = Inr (JArr ps') \<and> p' \<in> set ps'
            \<and> getitem p' ''template'' = Inr (JStr t) \<longrightarrow>
          (\<exists>its md n. res = PyList its \<and> getitem p' ''metadata'' = Inr md
              \<and> getitem md ''name'' = Inr n \<and> Rule n ns (''Template: '' @ t) \<in> set its))"
proof -
  from istio_config_list_no_filters [OF assms(1,2)] obtain its where
    res: "res = PyList its" and all: "all_items b str_of nss = Inr its" by blast
  from all_items_member [OF all assms(3)] obtain its' where
    ni: "namespace_items b str_of ns = Inr its'" and sub: "set its' \<subseteq> set its" by blast
  from namespace_items_parts [OF ni assms(4)] obtain ps3 ads ps4 tms where
    s3: "section_entries data ''adapters'' = Inr ps3" and
    r3: "rules (adapter_type str_of) ns ps3 = Inr ads" and
    s4: "section_entries data ''templates'' = Inr ps4" and
    r4: "rules (template_type str_of) ns ps4 = Inr tms" and
    sub3: "set ads \<subseteq> set its'" and sub4: "set tms \<subseteq> set its'"
    by blast
  have adapters: "\<exists>its md n. res = PyList its \<and> getitem p ''metadata'' = Inr md
              \<and> getitem md ''name'' = Inr n \<and> Rule n ns (''Adapter: '' @ a) \<in> set its"
    if h: "getitem data ''adapters'' = Inr (JArr ps)" "p \<in> set ps"
          "getitem p ''adapter'' = Inr (JStr a)"
  proof -
    from section_entries_JArr [OF h(1)] s3 have "ps3 = ps" by simp
    with r3 have "rules (adapter_type str_of) ns ps = Inr ads" by simp
    from rules_member [OF this h(2)] obtain md n ty where
      md: "getitem p ''metadata'' = Inr md" "getitem md ''name'' = Inr n" and
      ty: "adapter_type str_of p = Inr ty" and mem: "Rule n ns ty \<in> set ads"
      by blast
    from ty adapter_type_JStr [OF h(3), of str_of] have "ty = ''Adapter: '' @ a" by simp
    with mem sub3 sub have "Rule n ns (''Adapter: '' @ a) \<in> set its" by blast
    with res md show ?thesis by blast
  qed
  have templates: "\<exists>its md n. res = PyList its \<and> getitem p' ''metadata'' = Inr md
              \<and> getitem md ''name'' = Inr n \<and> Rule n ns (''Template: '' @ t) \<in> set its"
    if h: "getitem data ''templates'' = Inr (JArr ps')" "p' \<in> set ps'"
          "getitem p' ''template'' = Inr (JStr t)"
  proof -
    from section_entries_JArr [OF h(1)] s4 have "ps4 = ps'" by simp
    with r4 have "rules (template_type str_of) ns ps' = Inr tms" by simp
    from rules_member [OF this h(2)] obtain md n ty where
      md: "getitem p' ''metadata'' = Inr md" "getitem md ''name'' = Inr n" and
      ty: "template_type str_of p' = Inr ty" and mem: "Rule n ns ty \<in> set tms"
      by blast
    from ty template_type_JStr [OF h(3), of str_of] have "ty = ''Template: '' @ t" by simp
    with mem sub4 sub have "Rule n ns (''Template: '' @ t) \<in> set its" by blast
    with res md show ?thesis by blast
  qed
  from adapters templates show ?thesis by blast
qed

lemma example_config_list:
  "istio_config_list example_config_backend str_of []
   = Inr (PyList [Rule (JStr ''handler'') (JStr ''istio-system'') ''Adapter: prometheus'',
                  Rule (JStr ''requestcount'') (JStr ''istio-system'') ''Template: metric''])"
  by (simp add: istio_config_list_def namespace_list_def get_response_def
        example_config_backend_def namespace_items_def section_items_def
        section_entries_def apply_filters_def adapter_type_def template_type_def
        member_text_def IstioConfigObjectType_def format_arg_def rbind_def)

theorem composite_object_type_witness:
  "\<exists>its md n.
      istio_config_list example_config_backend (\<lambda>v. ''?'') [] = Inr (PyList its)
      \<and> getitem (JObj [(''metadata'', JObj [(''name'', JStr ''handler'')]),
                       (''adapter'', JStr ''prometheus'')]) ''metadata'' = Inr md
      \<and> getitem md ''name'' = Inr n
      \<and> Rule n (JStr ''istio-system'') ''Adapter: prometheus'' \<in> set its"
proof -
  have nl: "namespace_list example_config_backend = Inr [JStr ''istio-system'']"
    by (simp add: namespace_list_def get_response_def example_config_backend_def rbind_def)
  have mem: "JStr ''istio-system'' \<in> set [JStr ''istio-system'']" by simp
  have resp: "get_response example_config_backend ''istioConfigList''
                [(''namespace'', JStr ''istio-system'')]
              = Inr (JObj
          [(''destinationRules'', JObj []),
           (''rules'', JArr []),
           (''adapters'',
              JArr [JObj [(''metadata'', JObj [(''name'', JStr ''handler'')]),
                          (''adapter'', JStr ''prometheus'')]]),
           (''templates'',
              JArr [JObj [(''metadata'', JObj [(''name'', JStr ''requestcount'')]),
                          (''template'', JStr ''metric'')]]),
           (''virtualServices'', JObj []),
           (''quotaSpecs'', JArr []),
           (''quotaSpecBindings'', JArr []),
           (''gateways'', JArr []),
           (''serviceEntries'', JArr [])])"
    by (simp add: get_response_def example_config_backend_def)
  note t = composite_object_type [
      where ps = "[JObj [(''metadata'', JObj [(''name'', JStr ''handler'')]),
                        (''adapter'', JStr ''prometheus'')]]"
        and p = "JObj [(''metadata'', JObj [(''name'', JStr ''handler'')]),
                       (''adapter'', JStr ''prometheus'')]"
        and a = "''prometheus''",
      OF example_config_list [of "\<lambda>v. ''?''"] nl mem resp, THEN conjunct1]
  have "\<exists>its md n. PyList
         [Rule (JStr ''handler'') (JStr ''istio-system'') ''Adapter: prometheus'',
          Rule (JStr ''requestcount'') (JStr ''istio-system'') ''Template: metric'']
         = PyList its
      \<and> getitem (JObj [(''metadata'', JObj [(''name'', JStr ''handler'')]),
                       (''adapter'', JStr ''prometheus'')]) ''metadata'' = Inr md
      \<and> getitem md ''name'' = Inr n
      \<and> Rule n (JStr ''istio-system'') (''Adapter: '' @ ''prometheus'') \<in> set its"
    by (rule t [THEN mp]) simp
  then show ?thesis
    by (simp add: example_config_list)
qed

section \<open>Detail queries: not found\<close>

text \<open>
  C8. When the backend answers a detail request with an absent or empty (falsy)
  document, each of the four detail queries returns \<^verbatim>\<open>None\<close> and raises nothing.
\<close>

theorem details_not_found:
  "(get_response b ''serviceDetails''
      [(''namespace'', ns), (''service'', n)] = Inr d \<and> \<not> truthy d \<longrightarrow>
      service_details b build_service ns n = Inr None)
   \<and> (get_response b ''workloadDetails''
      [(''namespace'', ns), (''workload'', n)] = Inr d \<and> \<not> truthy d \<longrightarrow>
      workload_details b build_workload ns n = Inr None)
   \<and> (get_response b ''appDetails''
      [(''namespace'', ns), (''app'', n)] = Inr d \<and> \<not> truthy d \<longrightarrow>
      application_details b build_application ns n = Inr None)
   \<and> (get_response b ''istioConfigDetails''
      [(''namespace'', JStr ns'), (''object_type'', JStr ot), (''object'', JStr n')] = Inr d
      \<and> \<not> truthy d \<longrightarrow>
      istio_config_details b lib ns' ot n' = Inr PNone)"
  by (simp add: service_details_def workload_details_def application_details_def
        istio_config_details_def rbind_def)

theorem details_not_found_witness:
  "service_details (fixed_backend (JObj []) JNull) (\<lambda>d. Inl KeyError)
      (JStr ''bookinfo'') (JStr ''ghost'') = (Inr None :: py_error + unit option)
   \<and> workload_details (fixed_backend JNull JNull) (\<lambda>d. Inl KeyError)
      (JStr ''bookinfo'') (JStr ''ghost'') = (Inr None :: py_error + unit option)
   \<and> application_details (fixed_backend (JObj []) JNull) (\<lambda>d. Inl KeyError)
      (JStr ''bookinfo'') (JStr ''ghost'') = (Inr None :: py_error + unit option)
   \<and> istio_config_details (fixed_backend JNull JNull) example_library
      ''bookinfo'' ''gateways'' ''ghost'' = Inr PNone"
proof (intro conjI)
  have "get_response (fixed_backend (JObj []) JNull) ''serviceDetails''
          [(''namespace'', JStr ''bookinfo''), (''service'', JStr ''ghost'')] = Inr (JObj [])
        \<and> \<not> truthy (JObj [])"
    by (simp add: get_response_def fixed_backend_def)
  from details_not_found [THEN conjunct1, THEN mp, OF this]
  show "service_details (fixed_backend (JObj []) JNull) (\<lambda>d. Inl KeyError)
      (JStr ''bookinfo'') (JStr ''ghost'') = (Inr None :: py_error + unit option)" .
next
  have "get_response (fixed_backend JNull JNull) ''workloadDetails''
          [(''namespace'', JStr ''bookinfo''), (''workload'', JStr ''ghost'')] = Inr JNull
        \<and> \<not> truthy JNull"
    by (simp add: get_response_def fixed_backend_def)
  from details_not_found [THEN conjunct2, THEN conjunct1, THEN mp, OF this]
  show "workload_details (fixed_backend JNull JNull) (\<lambda>d. Inl KeyError)
      (JStr ''bookinfo'') (JStr ''ghost'') = (Inr None :: py_error + unit option)" .
next
  have "get_response (fixed_backend (JObj []) JNull) ''appDetails''
          [(''namespace'', JStr ''bookinfo''), (''app'', JStr ''ghost'')] = Inr (JObj [])
        \<and> \<not> truthy (JObj [])"
    by (simp add: get_response_def fixed_backend_def)
  from details_not_found [THEN conjunct2, THEN conjunct2, THEN conjunct1, THEN mp, OF this]
  show "application_details (fixed_backend (JObj []) JNull) (\<lambda>d. Inl KeyError)
      (JStr ''bookinfo'') (JStr ''ghost'') = (Inr None :: py_error + unit option)" .
next
  have "get_response (fixed_backend JNull JNull) ''istioConfigDetails''
          [(''namespace'', JStr ''bookinfo''), (''object_type'', JStr ''gateways''),
           (''object'', JStr ''ghost'')] = Inr JNull
        \<and> \<not> truthy JNull"
    by (simp add: get_response_def fixed_backend_def)
  from details_not_found [THEN conjunct2, THEN conjunct2, THEN conjunct2, THEN mp, OF this]
  show "istio_config_details (fixed_backend JNull JNull) example_library
      ''bookinfo'' ''gateways'' ''ghost'' = Inr PNone" .
qed

end
